theory Spec2Isabelle
  imports Main
begin

section \<open>Strings of code points\<close>

text \<open>
  The converter of \<^verbatim>\<open>cyr2arab.py\<close> works on Python strings, which are sequences of
  Unicode code points. A code point is a natural number here and a string is a list of them;
  a one-character string and its character are identified. Every letter the program names
  gets an abbreviation for its code point.
\<close>

type_synonym cp = nat
type_synonym ustr = "cp list"

subsection \<open>Source-script letters, lower case\<close>

abbreviation c_a :: cp where "c_a \<equiv> 0x0430"
abbreviation c_be :: cp where "c_be \<equiv> 0x0431"
abbreviation c_ve :: cp where "c_ve \<equiv> 0x0432"
abbreviation c_ghe :: cp where "c_ghe \<equiv> 0x0433"
abbreviation c_de :: cp where "c_de \<equiv> 0x0434"
abbreviation c_ie :: cp where "c_ie \<equiv> 0x0435"
abbreviation c_zhe :: cp where "c_zhe \<equiv> 0x0436"
abbreviation c_ze :: cp where "c_ze \<equiv> 0x0437"
abbreviation c_i :: cp where "c_i \<equiv> 0x0438"
abbreviation c_short_i :: cp where "c_short_i \<equiv> 0x0439"
abbreviation c_ka :: cp where "c_ka \<equiv> 0x043A"
abbreviation c_el :: cp where "c_el \<equiv> 0x043B"
abbreviation c_em :: cp where "c_em \<equiv> 0x043C"
abbreviation c_en :: cp where "c_en \<equiv> 0x043D"
abbreviation c_o :: cp where "c_o \<equiv> 0x043E"
abbreviation c_pe :: cp where "c_pe \<equiv> 0x043F"
abbreviation c_er :: cp where "c_er \<equiv> 0x0440"
abbreviation c_es :: cp where "c_es \<equiv> 0x0441"
abbreviation c_te :: cp where "c_te \<equiv> 0x0442"
abbreviation c_u :: cp where "c_u \<equiv> 0x0443"
abbreviation c_ef :: cp where "c_ef \<equiv> 0x0444"
abbreviation c_ha :: cp where "c_ha \<equiv> 0x0445"
abbreviation c_tse :: cp where "c_tse \<equiv> 0x0446"
abbreviation c_che :: cp where "c_che \<equiv> 0x0447"
abbreviation c_sha :: cp where "c_sha \<equiv> 0x0448"
abbreviation c_shcha :: cp where "c_shcha \<equiv> 0x0449"
abbreviation c_hard :: cp where "c_hard \<equiv> 0x044A"
abbreviation c_yeru :: cp where "c_yeru \<equiv> 0x044B"
abbreviation c_soft :: cp where "c_soft \<equiv> 0x044C"
abbreviation c_e :: cp where "c_e \<equiv> 0x044D"
abbreviation c_yu :: cp where "c_yu \<equiv> 0x044E"
abbreviation c_ya :: cp where "c_ya \<equiv> 0x044F"
abbreviation c_io :: cp where "c_io \<equiv> 0x0451"
abbreviation c_schwa :: cp where "c_schwa \<equiv> 0x04D9"
abbreviation c_ii :: cp where "c_ii \<equiv> 0x0456"
abbreviation c_eng :: cp where "c_eng \<equiv> 0x04A3"
abbreviation c_ghayn :: cp where "c_ghayn \<equiv> 0x0493"
abbreviation c_ue :: cp where "c_ue \<equiv> 0x04AF"
abbreviation c_uu :: cp where "c_uu \<equiv> 0x04B1"
abbreviation c_qa :: cp where "c_qa \<equiv> 0x049B"
abbreviation c_oe :: cp where "c_oe \<equiv> 0x04E9"
abbreviation c_shha :: cp where "c_shha \<equiv> 0x04BB"

subsection \<open>Source-script letters, upper case\<close>

abbreviation C_a :: cp where "C_a \<equiv> 0x0410"
abbreviation C_be :: cp where "C_be \<equiv> 0x0411"
abbreviation C_ve :: cp where "C_ve \<equiv> 0x0412"
abbreviation C_ghe :: cp where "C_ghe \<equiv> 0x0413"
abbreviation C_de :: cp where "C_de \<equiv> 0x0414"
abbreviation C_ie :: cp where "C_ie \<equiv> 0x0415"
abbreviation C_zhe :: cp where "C_zhe \<equiv> 0x0416"
abbreviation C_ze :: cp where "C_ze \<equiv> 0x0417"
abbreviation C_i :: cp where "C_i \<equiv> 0x0418"
abbreviation C_short_i :: cp where "C_short_i \<equiv> 0x0419"
abbreviation C_ka :: cp where "C_ka \<equiv> 0x041A"
abbreviation C_el :: cp where "C_el \<equiv> 0x041B"
abbreviation C_em :: cp where "C_em \<equiv> 0x041C"
abbreviation C_en :: cp where "C_en \<equiv> 0x041D"
abbreviation C_o :: cp where "C_o \<equiv> 0x041E"
abbreviation C_pe :: cp where "C_pe \<equiv> 0x041F"
abbreviation C_er :: cp where "C_er \<equiv> 0x0420"
abbreviation C_es :: cp where "C_es \<equiv> 0x0421"
abbreviation C_te :: cp where "C_te \<equiv> 0x0422"
abbreviation C_u :: cp where "C_u \<equiv> 0x0423"
abbreviation C_ef :: cp where "C_ef \<equiv> 0x0424"
abbreviation C_ha :: cp where "C_ha \<equiv> 0x0425"
abbreviation C_tse :: cp where "C_tse \<equiv> 0x0426"
abbreviation C_che :: cp where "C_che \<equiv> 0x0427"
abbreviation C_sha :: cp where "C_sha \<equiv> 0x0428"
abbreviation C_shcha :: cp where "C_shcha \<equiv> 0x0429"
abbreviation C_hard :: cp where "C_hard \<equiv> 0x042A"
abbreviation C_yeru :: cp where "C_yeru \<equiv> 0x042B"
abbreviation C_soft :: cp where "C_soft \<equiv> 0x042C"
abbreviation C_e :: cp where "C_e \<equiv> 0x042D"
abbreviation C_yu :: cp where "C_yu \<equiv> 0x042E"
abbreviation C_ya :: cp where "C_ya \<equiv> 0x042F"
abbreviation C_io :: cp where "C_io \<equiv> 0x0401"
abbreviation C_schwa :: cp where "C_schwa \<equiv> 0x04D8"
abbreviation C_ii :: cp where "C_ii \<equiv> 0x0406"
abbreviation C_eng :: cp where "C_eng \<equiv> 0x04A2"
abbreviation C_ghayn :: cp where "C_ghayn \<equiv> 0x0492"
abbreviation C_ue :: cp where "C_ue \<equiv> 0x04AE"
abbreviation C_uu :: cp where "C_uu \<equiv> 0x04B0"
abbreviation C_qa :: cp where "C_qa \<equiv> 0x049A"
abbreviation C_oe :: cp where "C_oe \<equiv> 0x04E8"
abbreviation C_shha :: cp where "C_shha \<equiv> 0x04BA"

subsection \<open>Target-script letters and marks\<close>

abbreviation a_comma :: cp where "a_comma \<equiv> 0x060C"
abbreviation a_semicolon :: cp where "a_semicolon \<equiv> 0x061B"
abbreviation a_question :: cp where "a_question \<equiv> 0x061F"
abbreviation a_alef :: cp where "a_alef \<equiv> 0x0627"
abbreviation a_beh :: cp where "a_beh \<equiv> 0x0628"
abbreviation a_teh :: cp where "a_teh \<equiv> 0x062A"
abbreviation a_jeem :: cp where "a_jeem \<equiv> 0x062C"
abbreviation a_hah :: cp where "a_hah \<equiv> 0x062D"
abbreviation a_dal :: cp where "a_dal \<equiv> 0x062F"
abbreviation a_reh :: cp where "a_reh \<equiv> 0x0631"
abbreviation a_zain :: cp where "a_zain \<equiv> 0x0632"
abbreviation a_seen :: cp where "a_seen \<equiv> 0x0633"
abbreviation a_sheen :: cp where "a_sheen \<equiv> 0x0634"
abbreviation a_ain :: cp where "a_ain \<equiv> 0x0639"
abbreviation a_feh :: cp where "a_feh \<equiv> 0x0641"
abbreviation a_qaf :: cp where "a_qaf \<equiv> 0x0642"
abbreviation a_kaf :: cp where "a_kaf \<equiv> 0x0643"
abbreviation a_lam :: cp where "a_lam \<equiv> 0x0644"
abbreviation a_meem :: cp where "a_meem \<equiv> 0x0645"
abbreviation a_noon :: cp where "a_noon \<equiv> 0x0646"
abbreviation a_waw :: cp where "a_waw \<equiv> 0x0648"
abbreviation a_alef_maksura :: cp where "a_alef_maksura \<equiv> 0x0649"
abbreviation a_yeh :: cp where "a_yeh \<equiv> 0x064A"
abbreviation a_peh :: cp where "a_peh \<equiv> 0x067E"
abbreviation a_tcheh :: cp where "a_tcheh \<equiv> 0x0686"
abbreviation a_ng :: cp where "a_ng \<equiv> 0x06AD"
abbreviation a_gaf :: cp where "a_gaf \<equiv> 0x06AF"
abbreviation a_heh_do :: cp where "a_heh_do \<equiv> 0x06BE"
abbreviation a_oe :: cp where "a_oe \<equiv> 0x06C6"
abbreviation a_u :: cp where "a_u \<equiv> 0x06C7"
abbreviation a_ve :: cp where "a_ve \<equiv> 0x06CB"
abbreviation a_ae :: cp where "a_ae \<equiv> 0x06D5"

subsection \<open>ASCII characters the program names\<close>

abbreviation p_space :: cp where "p_space \<equiv> 0x0020"
abbreviation p_hyphen :: cp where "p_hyphen \<equiv> 0x002D"
abbreviation p_underscore :: cp where "p_underscore \<equiv> 0x005F"
abbreviation p_comma :: cp where "p_comma \<equiv> 0x002C"
abbreviation p_full_stop :: cp where "p_full_stop \<equiv> 0x002E"
abbreviation p_colon :: cp where "p_colon \<equiv> 0x003A"
abbreviation p_semicolon :: cp where "p_semicolon \<equiv> 0x003B"
abbreviation p_question :: cp where "p_question \<equiv> 0x003F"
abbreviation p_exclamation :: cp where "p_exclamation \<equiv> 0x0021"

text \<open>The glottal marker, \<^verbatim>\<open>self.HAMZA\<close>.\<close>

abbreviation HAMZA :: cp where "HAMZA \<equiv> 0x0674"

section \<open>The lookup tables\<close>

text \<open>
  The dictionaries of \<^verbatim>\<open>__init__\<close>, in the order of the source (Python dictionaries keep
  insertion order, and no key is written twice), and the sets and lists beside them.
  \<^verbatim>\<open>SOFT_PREFIXES_WITH_HARD_ROOT\<close> is a dictionary whose values are never read: only the
  keys are kept, in order.
\<close>

definition PROPER_NOUNS :: "(ustr \<times> ustr) list" where
  "PROPER_NOUNS =
  [([c_es, c_i], [a_sheen, a_yeh]),
   ([c_tse, c_ze, c_i, c_en, c_soft, c_pe, c_i, c_en],
      [a_jeem, a_yeh, a_noon, a_peh, a_yeh, a_ng]),
   ([c_es, c_i, p_space, c_tse, c_ze, c_i, c_en, c_soft, c_pe, c_i, c_en],
      [a_sheen, a_yeh, p_space, a_jeem, a_yeh, a_noon, a_peh, a_yeh, a_ng]),
   ([c_el, c_i, p_space, c_tse, c_ya, c_en],
      [a_lam, a_yeh, p_space, a_tcheh, a_yeh, a_alef, a_ng]),
   ([c_el, c_i], [a_lam, a_yeh]), ([c_tse, c_ya, c_en], [a_tcheh, a_yeh, a_alef, a_ng]),
   ([c_che, c_zhe, c_a, c_o, p_space, c_el, c_e, c_tse, c_ze, c_i],
      [a_jeem, a_alef, a_ve, p_space, a_lam, a_alef_maksura, a_jeem, a_yeh]),
   ([c_che, c_zhe, c_a, c_o], [a_jeem, a_alef, a_ve]),
   ([c_el, c_e, c_tse, c_ze, c_i], [a_lam, a_alef_maksura, a_jeem, a_yeh]),
   ([c_ve, c_a, c_en, p_space, c_ha, c_u, c_en, c_i, c_en],
      [a_ve, a_alef, a_ng, p_space, a_hah, a_ve, a_noon, a_yeh, a_ng]),
   ([c_ve, c_a, c_en], [a_ve, a_alef, a_ng]),
   ([c_ha, c_u, c_en, c_i, c_en], [a_hah, a_ve, a_noon, a_yeh, a_ng]),
   ([c_tse, c_a, c_short_i, p_space, c_tse, c_i],
      [a_seen, a_alef, a_yeh, p_space, a_tcheh, a_yeh]),
   ([c_tse, c_a, c_short_i], [a_seen, a_alef, a_yeh]), ([c_tse, c_i], [a_tcheh, a_yeh]),
   ([c_de, c_i, c_en, p_space, c_es, c_yu, c_e, c_es, c_ya, c_en],
      [a_dal, a_yeh, a_ng, p_space, a_sheen, a_ve, a_ae, a_sheen, a_yeh, a_alef, a_ng]),
   ([c_de, c_i, c_en], [a_dal, a_yeh, a_ng]),
   ([c_es, c_yu, c_e, c_es, c_ya, c_en], [a_sheen, a_ve, a_ae, a_sheen, a_yeh, a_alef, a_ng]),
   ([c_el, c_i, p_space, c_es, c_i], [a_lam, a_yeh, p_space, a_sheen, a_yeh]),
   ([c_sha, c_u, c_zhe, c_i], [a_sheen, a_ve, a_jeem, a_yeh]),
   ([c_qa, c_a, c_ze, c_a, c_qa, c_es, c_te, c_a, c_en],
      [a_qaf, a_alef, a_zain, a_alef, a_qaf, a_seen, a_teh, a_alef, a_noon]),
   ([c_a, c_el, c_em, c_a, c_te, c_yeru],
      [a_alef, a_lam, a_meem, a_alef, a_teh, a_alef_maksura]),
   ([c_a, c_es, c_te, c_a, c_en, c_a], [a_alef, a_seen, a_teh, a_alef, a_noon, a_alef]),
   ([c_sha, c_yeru, c_em, c_ka, c_ie, c_en, c_te],
      [a_sheen, a_alef_maksura, a_meem, a_kaf, a_ae, a_noon, a_teh]),
   ([c_zhe, c_uu, c_eng, c_ghe, c_o], [a_jeem, a_u, a_ng, a_gaf, a_waw]),
   ([c_che, c_a, c_en, c_tse, c_ze, c_ya, c_en],
      [a_tcheh, a_alef, a_ng, a_jeem, a_yeh, a_alef, a_ng]),
   ([c_che, c_a, c_en, c_tse, c_ze, c_ya, c_en, c_en, c_yeru, c_eng],
      [a_tcheh, a_alef, a_ng, a_jeem, a_yeh, a_alef, a_ng, a_noon, a_alef_maksura, a_ng]),
   ([c_pe, c_ie, c_ka, c_i, c_en], [a_beh, a_ae, a_yeh, a_jeem, a_yeh, a_ng]),
   ([c_o, c_er, c_te, c_a, c_el, c_yeru, c_qa, p_space, c_ka, c_o, c_em, c_i, c_te, c_ie, c_te],
      [a_waw, a_reh, a_teh, a_alef, a_lam, a_alef_maksura, a_qaf, p_space, a_kaf, a_waw, a_meem, a_yeh, a_teh, a_ae, a_teh])]"

definition COMMON_WORDS :: "(ustr \<times> ustr) list" where
  "COMMON_WORDS =
  [([c_es, c_oe, c_ze], [HAMZA, a_seen, a_waw, a_zain]),
   ([c_be, c_ii, c_ze, c_de, c_ii, c_eng],
      [HAMZA, a_beh, a_alef_maksura, a_zain, a_dal, a_alef_maksura, a_ng]),
   ([c_o, c_te, c_a, c_en, c_yeru, c_em, c_yeru, c_ze],
      [a_waw, a_teh, a_alef, a_noon, a_alef_maksura, a_meem, a_alef_maksura, a_zain]),
   ([c_oe, c_te, c_ie], [HAMZA, a_waw, a_teh, a_ae]),
   ([c_ka, c_oe, c_er, c_ii, c_ka, c_te, c_ii],
      [a_kaf, a_waw, a_reh, a_alef_maksura, a_kaf, a_teh, a_alef_maksura]),
   ([c_oe, c_em, c_ii, c_er, c_ii, c_em, c_ii, c_ze, c_de, c_ii],
      [a_waw, a_meem, a_alef_maksura, a_reh, a_alef_maksura, a_meem, a_alef_maksura, a_zain, a_dal, a_alef_maksura]),
   ([c_oe, c_ze, c_ghe, c_ie, c_er, c_te, c_ie, c_de, c_ii],
      [a_waw, a_zain, a_gaf, a_ae, a_reh, a_teh, a_ae, a_dal, a_alef_maksura]),
   ([c_be, c_ii, c_el, c_ii, c_em],
      [HAMZA, a_beh, a_alef_maksura, a_lam, a_alef_maksura, a_meem]),
   ([c_em, c_ie, c_en], [a_meem, a_ae, a_noon]),
   ([c_ghayn, c_yeru, c_el, c_yeru, c_em],
      [a_ain, a_alef_maksura, a_lam, a_alef_maksura, a_meem]),
   ([c_de, c_a, c_em, c_u, c_de, c_yeru, c_eng],
      [a_dal, a_alef, a_meem, a_ve, a_dal, a_alef_maksura, a_ng]),
   ([c_ka, c_ii, c_el, c_te, c_ii], [a_kaf, a_alef_maksura, a_lam, a_teh, a_alef_maksura]),
   ([c_be, c_ii, c_er], [HAMZA, a_beh, a_alef_maksura, a_reh]),
   ([c_schwa, c_er], [HAMZA, a_alef, a_reh]), ([c_ii, c_es], [HAMZA, a_alef_maksura, a_seen]),
   ([c_oe, c_ze], [HAMZA, a_waw, a_zain]),
   ([c_ue, c_sha, c_ii, c_en], [HAMZA, a_u, a_sheen, a_alef_maksura, a_noon]),
   ([c_te, c_ii, c_el], [HAMZA, a_teh, a_alef_maksura, a_lam]),
   ([c_oe, c_em, c_ii, c_er], [HAMZA, a_waw, a_meem, a_alef_maksura, a_reh]),
   ([c_schwa, c_en, c_sha, c_ii], [HAMZA, a_alef, a_noon, a_sheen, a_alef_maksura]),
   ([c_be, c_a, c_es, c_pe, c_a, c_es, c_oe, c_ze],
      [a_beh, a_alef, a_seen, a_peh, a_alef, a_seen, a_waw, a_zain]),
   ([c_ie, c_em, c_ha, c_a, c_en, c_a], [a_ae, a_meem, a_hah, a_alef, a_noon, a_alef]),
   ([c_oe, c_en, c_ie, c_er, c_pe, c_a, c_ze],
      [HAMZA, a_waw, a_noon, a_ae, a_reh, a_peh, a_alef, a_zain]),
   ([c_ie, c_eng, c_be, c_ie, c_ka, c_qa, c_o, c_er],
      [a_ae, a_ng, a_beh, a_ae, a_kaf, a_qaf, a_waw, a_reh]),
   ([c_a, c_er, c_be, c_a, c_ka, c_ie, c_sha],
      [a_alef, a_reh, a_beh, a_alef, a_kaf, a_ae, a_sheen]),
   ([c_te, c_a, c_el, c_a, c_pe, c_ka, c_ie, c_er],
      [a_teh, a_alef, a_lam, a_alef, a_peh, a_kaf, a_ae, a_reh]),
   ([c_es, c_u, c_er, c_ie, c_te, c_sha, c_ii],
      [a_seen, a_ve, a_reh, a_ae, a_teh, a_sheen, a_alef_maksura]),
   ([c_zhe, c_a, c_u, c_yeru, c_en, c_ghe, c_ie, c_er],
      [a_jeem, a_alef, a_ve, a_alef_maksura, a_noon, a_gaf, a_ae, a_reh]),
   ([c_be, c_yu, c_de, c_zhe, c_ie, c_te], [a_beh, a_ve, a_dal, a_jeem, a_ae, a_teh]),
   ([c_de, c_i, c_a, c_ghe, c_en, c_o, c_ze],
      [a_dal, a_alef_maksura, a_yeh, a_alef, a_gaf, a_noon, a_waw, a_zain]),
   ([c_te, c_o, c_ka, c_i, c_o], [a_teh, a_waw, a_kaf, a_alef_maksura, a_yeh, a_waw]),
   ([c_te, c_i, c_ii, c_es, c_ii, c_en, c_sha, c_ie],
      [a_teh, a_alef_maksura, a_yeh, a_alef_maksura, a_seen, a_alef_maksura, a_noon, a_sheen, a_ae]),
   ([c_be, c_ii, c_er, c_a, c_qa], [a_beh, a_alef_maksura, a_reh, a_alef, a_qaf]),
   ([c_de, c_schwa, c_er, c_ii, c_ha, c_a, c_en, c_a],
      [a_dal, a_alef, a_reh, a_alef_maksura, a_hah, a_alef, a_noon, a_alef]),
   ([c_es, c_i, c_ya, c_ze], [a_seen, a_alef_maksura, a_yeh, a_ae, a_zain]),
   ([c_qa, c_i, c_ya, c_er], [a_qaf, a_alef_maksura, a_yeh, a_alef, a_reh]),
   ([c_e, c_ka, c_o, c_el, c_o, c_ghe, c_i, c_ya, c_el, c_yeru, c_qa],
      [a_ae, a_kaf, a_waw, a_lam, a_waw, a_gaf, a_alef_maksura, a_yeh, a_alef, a_lam, a_alef_maksura, a_qaf]),
   ([c_en, c_soft, c_yu, p_hyphen, c_short_i, c_o, c_er, c_ka],
      [a_noon, a_alef_maksura, a_yeh, a_ve, p_hyphen, a_yeh, a_waw, a_reh, a_kaf])]"

definition LOANWORD_CONSONANTS :: "cp set" where
  "LOANWORD_CONSONANTS =
  {c_ef, C_ef, c_ve, C_ve, c_tse, C_tse, c_che, C_che}"

definition LOANWORD_SUFFIXES :: "ustr list" where
  "LOANWORD_SUFFIXES =
  [[c_tse, c_i, c_ya], [c_es, c_i, c_ya], [c_i, c_ya], [c_o, c_el, c_o, c_ghe, c_i, c_ya],
   [c_ghe, c_er, c_a, c_ef, c_i, c_ya], [c_el, c_o, c_ghe, c_i, c_ya], [c_i, c_ka, c_a],
   [c_i, c_ze, c_em]]"

definition I_INITIAL_NATIVE_WORDS :: "ustr set" where
  "I_INITIAL_NATIVE_WORDS =
  {[c_i, c_ii, c_es], [c_i, c_en, c_ie], [c_i, c_te], [c_i, c_yu], [c_i, c_ii, c_er],
   [c_i, c_ii, c_el], [c_i, c_er, c_ii], [c_i, c_yeru, c_qa], [c_i, c_en]}"

definition SOFT_PREFIXES_WITH_HARD_ROOT :: "ustr list" where
  "SOFT_PREFIXES_WITH_HARD_ROOT =
  [[c_be, c_ie, c_es], [c_ie, c_ka, c_ii], [c_zhe, c_ie, c_te, c_ii],
   [c_es, c_ie, c_ghe, c_ii, c_ze], [c_te, c_o, c_ghayn, c_yeru, c_ze]]"

definition CONSONANTS :: "(cp \<times> ustr) list" where
  "CONSONANTS =
  [(c_be, [a_beh]), (C_be, [a_beh]), (c_ve, [a_oe]), (C_ve, [a_oe]), (c_ghe, [a_gaf]),
   (C_ghe, [a_gaf]), (c_ghayn, [a_ain]), (C_ghayn, [a_ain]), (c_de, [a_dal]), (C_de, [a_dal]),
   (c_zhe, [a_jeem]), (C_zhe, [a_jeem]), (c_ze, [a_zain]), (C_ze, [a_zain]),
   (c_short_i, [a_yeh]), (C_short_i, [a_yeh]), (c_ka, [a_kaf]), (C_ka, [a_kaf]),
   (c_qa, [a_qaf]), (C_qa, [a_qaf]), (c_el, [a_lam]), (C_el, [a_lam]), (c_em, [a_meem]),
   (C_em, [a_meem]), (c_en, [a_noon]), (C_en, [a_noon]), (c_eng, [a_ng]), (C_eng, [a_ng]),
   (c_pe, [a_peh]), (C_pe, [a_peh]), (c_er, [a_reh]), (C_er, [a_reh]), (c_es, [a_seen]),
   (C_es, [a_seen]), (c_te, [a_teh]), (C_te, [a_teh]), (c_ef, [a_feh]), (C_ef, [a_feh]),
   (c_ha, [a_hah]), (C_ha, [a_hah]), (c_shha, [a_heh_do]), (C_shha, [a_heh_do]),
   (c_che, [a_tcheh]), (C_che, [a_tcheh]), (c_sha, [a_sheen]), (C_sha, [a_sheen])]"

definition VOWELS :: "(cp \<times> ustr) list" where
  "VOWELS =
  [(c_a, [a_alef]), (C_a, [a_alef]), (c_schwa, [a_alef]), (C_schwa, [a_alef]), (c_ie, [a_ae]),
   (C_ie, [a_ae]), (c_o, [a_waw]), (C_o, [a_waw]), (c_oe, [a_waw]), (C_oe, [a_waw]),
   (c_u, [a_ve]), (C_u, [a_ve]), (c_uu, [a_u]), (C_uu, [a_u]), (c_ue, [a_u]), (C_ue, [a_u]),
   (c_yeru, [a_alef_maksura]), (C_yeru, [a_alef_maksura]), (c_ii, [a_alef_maksura]),
   (C_ii, [a_alef_maksura]), (c_e, [a_ae]), (C_e, [a_ae])]"

definition COMBINATIONS :: "(cp \<times> ustr) list" where
  "COMBINATIONS =
  [(c_tse, [a_teh, a_seen]), (C_tse, [a_teh, a_seen]), (c_shcha, [a_sheen, a_sheen]),
   (C_shcha, [a_sheen, a_sheen]), (c_yu, [a_yeh, a_ve]), (C_yu, [a_yeh, a_ve]),
   (c_ya, [a_yeh, a_alef]), (C_ya, [a_yeh, a_alef]), (c_io, [a_yeh, a_waw]),
   (C_io, [a_yeh, a_waw])]"

definition FRONT_VOWELS :: "cp set" where
  "FRONT_VOWELS =
  {c_schwa, C_schwa, c_ie, C_ie, c_ii, C_ii, c_oe, C_oe, c_ue, C_ue}"

definition BACK_VOWELS :: "cp set" where
  "BACK_VOWELS =
  {c_a, C_a, c_o, C_o, c_uu, C_uu, c_yeru, C_yeru, c_u, C_u}"

definition HAMZA_SIGNAL_ARABIC :: "cp set" where
  "HAMZA_SIGNAL_ARABIC =
  {a_kaf, a_gaf, a_ae}"

definition HAMZA_SIGNAL_CYRILLIC :: "cp set" where
  "HAMZA_SIGNAL_CYRILLIC =
  {c_ka, C_ka, c_ghe, C_ghe, c_ie, C_ie}"

definition PUNCTUATION :: "(ustr \<times> ustr) list" where
  "PUNCTUATION =
  [([p_comma], [a_comma]), ([p_full_stop], [p_full_stop]), ([p_colon], [p_colon]),
   ([p_semicolon], [a_semicolon]), ([p_question], [a_question]),
   ([p_exclamation], [p_exclamation])]"

section \<open>String operations of the Python runtime\<close>

text \<open>
  \<^verbatim>\<open>str.lower\<close>, one character at a time. The program lower-cases runs found by the
  pattern of \<^verbatim>\<open>convert\<close> and their hyphen-delimited parts only, so the model gives the
  lower-case letter of every capital the pattern admits and leaves every other code point
  as it is.
\<close>

definition lower_cp :: "cp \<Rightarrow> cp" where
  "lower_cp c =
     (if C_a \<le> c \<and> c \<le> C_ya then c + 0x20
      else if c = C_io then c_io
      else if c = C_ii then c_ii
      else if c \<in> {C_schwa, C_eng, C_ghayn, C_ue, C_uu, C_qa, C_oe, C_shha} then c + 1
      else c)"

definition str_lower :: "ustr \<Rightarrow> ustr" where
  "str_lower s = map lower_cp s"

text \<open>
  The character class of the pattern in \<^verbatim>\<open>convert\<close>: the ranges U+0430..U+044F and
  U+0410..U+042F and the letters listed after them.
\<close>

definition pattern_letter :: "cp \<Rightarrow> bool" where
  "pattern_letter c =
     ((c_a \<le> c \<and> c \<le> c_ya)
      \<or> c \<in> {c_schwa, c_ii, c_eng, c_ghayn, c_ue, c_uu, c_qa, c_oe, c_shha, c_io, c_e, c_hard, c_soft}
      \<or> (C_a \<le> c \<and> c \<le> C_ya)
      \<or> c \<in> {C_schwa, C_ii, C_eng, C_ghayn, C_ue, C_uu, C_qa, C_oe, C_shha, C_io, C_e, C_hard, C_soft})"

text \<open>
  \<^verbatim>\<open>str.isalpha\<close> on one character of a lower-cased word: true of every letter of the
  pattern, false of the hyphen.
\<close>

definition isalpha :: "cp \<Rightarrow> bool" where
  "isalpha c = pattern_letter c"

definition startswith :: "ustr \<Rightarrow> ustr \<Rightarrow> bool" where
  "startswith s p = (take (length p) s = p)"

definition endswith :: "ustr \<Rightarrow> ustr \<Rightarrow> bool" where
  "endswith s p = (length p \<le> length s \<and> drop (length s - length p) s = p)"

text \<open>
  \<^verbatim>\<open>s.replace(old, new)\<close>: the occurrences of \<open>old\<close> are found from the left and do
  not overlap; an empty \<open>old\<close> matches before every character and at the end.
\<close>

function str_replace :: "ustr \<Rightarrow> ustr \<Rightarrow> ustr \<Rightarrow> ustr" where
  "str_replace s old new =
     (if old = [] then new @ concat (map (\<lambda>c. c # new) s)
      else if s = [] then []
      else if take (length old) s = old then new @ str_replace (drop (length old) s) old new
      else hd s # str_replace (tl s) old new)"
  by pat_completeness auto
termination
  by (relation "measure (\<lambda>(s, old, new). length s)") auto

text \<open>\<^verbatim>\<open>s.split(sep)\<close> for a one-character separator, and \<^verbatim>\<open>sep.join(parts)\<close>.\<close>

fun str_split :: "ustr \<Rightarrow> cp \<Rightarrow> ustr list" where
  "str_split [] sep = [[]]"
| "str_split (c # s) sep =
     (if c = sep then [] # str_split s sep
      else (case str_split s sep of
              p # ps \<Rightarrow> (c # p) # ps
            | [] \<Rightarrow> [[c]]))"

fun str_join :: "ustr \<Rightarrow> ustr list \<Rightarrow> ustr" where
  "str_join sep [] = []"
| "str_join sep [p] = p"
| "str_join sep (p # q # ps) = p @ sep @ str_join sep (q # ps)"

section \<open>Errors\<close>

text \<open>
  The only operation of the converter that can raise is a dictionary subscript with a
  missing key. A function that may raise returns a sum, the error on the left.
\<close>

datatype error = KeyError

fun sequence :: "(error + 'a) list \<Rightarrow> error + 'a list" where
  "sequence [] = Inr []"
| "sequence (Inl e # rs) = Inl e"
| "sequence (Inr x # rs) = (case sequence rs of Inl e \<Rightarrow> Inl e | Inr xs \<Rightarrow> Inr (x # xs))"

section \<open>The word classifier\<close>

datatype harmony = Front | Back

text \<open>
  The two vowel scans of \<^verbatim>\<open>get_initial_harmony\<close>: the class of the first character that
  is a front or a back vowel, if there is one.
\<close>

fun first_vowel :: "ustr \<Rightarrow> harmony option" where
  "first_vowel [] = None"
| "first_vowel (char # s) =
     (if char \<in> FRONT_VOWELS then Some Front
      else if char \<in> BACK_VOWELS then Some Back
      else first_vowel s)"

text \<open>
  The loop over the soft prefixes: a prefix that the word starts with and is longer than
  decides by the first vowel of the rest; when the rest has none the loop goes on.
\<close>

fun prefix_loop :: "ustr list \<Rightarrow> ustr \<Rightarrow> harmony option" where
  "prefix_loop [] word_lower = None"
| "prefix_loop (prefix # ps) word_lower =
     (if startswith word_lower prefix \<and> length word_lower > length prefix then
        (case first_vowel (drop (length prefix) word_lower) of
           Some h \<Rightarrow> Some h
         | None \<Rightarrow> prefix_loop ps word_lower)
      else prefix_loop ps word_lower)"

definition get_initial_harmony :: "ustr \<Rightarrow> harmony" where
  "get_initial_harmony word =
     (let word_lower = str_lower word in
      if list_ex (\<lambda>c. c \<in> set [c_qa, c_ghayn]) word_lower then Back
      else if list_ex (\<lambda>c. c \<in> set [c_ka, c_ghe]) word_lower then Front
      else if word_lower \<in> I_INITIAL_NATIVE_WORDS then Front
      else (case prefix_loop SOFT_PREFIXES_WITH_HARD_ROOT word_lower of
              Some h \<Rightarrow> h
            | None \<Rightarrow> (case first_vowel word_lower of Some h \<Rightarrow> h | None \<Rightarrow> Back)))"

definition is_i_initial_native :: "ustr \<Rightarrow> bool" where
  "is_i_initial_native word = (str_lower word \<in> I_INITIAL_NATIVE_WORDS)"

text \<open>
  The four tests of \<^verbatim>\<open>is_loanword\<close>, each as the source writes it. The hiatus test
  searches the pattern \<^verbatim>\<open>[...]{2,}\<close>, two neighbouring characters of the class, in the
  lower-cased word after the two replacements; the consonant test counts letters that
  are not in the local set \<^verbatim>\<open>vowels\<close>.
\<close>

definition has_loanword_consonant :: "ustr \<Rightarrow> bool" where
  "has_loanword_consonant word = list_ex (\<lambda>char. char \<in> LOANWORD_CONSONANTS) word"

definition has_loanword_suffix :: "ustr \<Rightarrow> bool" where
  "has_loanword_suffix word_lower = list_ex (\<lambda>suffix. endswith word_lower suffix) LOANWORD_SUFFIXES"

definition hiatus_class :: "cp set" where
  "hiatus_class = {c_a, c_schwa, c_ie, c_o, c_oe, c_uu, c_ue, c_ii, c_yeru, c_i, c_e}"

fun search_pair :: "ustr \<Rightarrow> bool" where
  "search_pair (a # b # s) = ((a \<in> hiatus_class \<and> b \<in> hiatus_class) \<or> search_pair (b # s))"
| "search_pair s = False"

definition has_hiatus :: "ustr \<Rightarrow> bool" where
  "has_hiatus word_lower =
     (let temp_word = str_replace (str_replace word_lower [c_i, c_ii] [p_underscore])
                                  [c_ii, c_i] [p_underscore]
      in search_pair temp_word)"

definition vowels :: "cp set" where
  "vowels = {c_a, c_schwa, c_ie, c_o, c_oe, c_uu, c_ue, c_ii, c_yeru, c_i, c_e, c_u, c_yu, c_ya, c_io}"

fun consonant_loop :: "nat \<Rightarrow> ustr \<Rightarrow> bool" where
  "consonant_loop consonant_count [] = False"
| "consonant_loop consonant_count (char # s) =
     (if isalpha char \<and> char \<notin> vowels then
        (if consonant_count + 1 \<ge> 3 then True else consonant_loop (consonant_count + 1) s)
      else consonant_loop 0 s)"

definition is_loanword :: "ustr \<Rightarrow> bool" where
  "is_loanword word =
     (let word_lower = str_lower word in
      if word_lower \<in> I_INITIAL_NATIVE_WORDS then False
      else if has_loanword_consonant word then True
      else if has_loanword_suffix word_lower then True
      else if has_hiatus word_lower then True
      else consonant_loop 0 word_lower)"

section \<open>The glottal-marker rule\<close>

definition apply_hamza_rule :: "ustr \<Rightarrow> ustr \<Rightarrow> ustr" where
  "apply_hamza_rule arabic_word word =
     (let loanword = is_loanword word;
          is_i_native = is_i_initial_native word
      in
      if loanword then str_replace arabic_word [HAMZA] []
      else if is_i_native then
        (if \<not> startswith arabic_word [HAMZA] then HAMZA # arabic_word else arabic_word)
      else if list_ex (\<lambda>char. char \<in> set [c_ka, C_ka, c_ghe, C_ghe]) word then
        str_replace arabic_word [HAMZA] []
      else
        (let word_lower = str_lower word;
             has_e = (c_ie \<in> set word_lower \<or> C_ie \<in> set word)
         in
         if has_e then
           (if word_lower \<noteq> [] \<and> hd word_lower \<in> set [c_oe, c_ue, c_ii] then
              (if \<not> startswith arabic_word [HAMZA] then HAMZA # arabic_word else arabic_word)
            else str_replace arabic_word [HAMZA] [])
         else if word_lower \<noteq> [] \<and> hd word_lower \<in> set [c_oe, c_ue, c_ii] then
           (if \<not> startswith arabic_word [HAMZA] then HAMZA # arabic_word else arabic_word)
         else
           (let initial_harmony = get_initial_harmony word in
            if initial_harmony = Back then str_replace arabic_word [HAMZA] []
            else if initial_harmony = Front then
              (if \<not> startswith arabic_word [HAMZA] then HAMZA # arabic_word else arabic_word)
            else arabic_word)))"

section \<open>The character transcriber\<close>

text \<open>
  One round of the \<^verbatim>\<open>while\<close> loop of \<^verbatim>\<open>convert_word\<close> at index \<open>i\<close>: the strings
  appended to \<^verbatim>\<open>result\<close> (none for the soft and hard signs). The look-behind reads the
  source word at \<open>i - 1\<close>. \<^verbatim>\<open>COMBINATIONS[char_lower]\<close> is a subscript and raises when
  the key is missing.
\<close>

definition scan_step :: "ustr \<Rightarrow> bool \<Rightarrow> nat \<Rightarrow> error + ustr list" where
  "scan_step word loanword i =
     (let char = word ! i;
          char_lower = lower_cp char
      in
      if char_lower \<in> set [c_soft, c_hard] then Inr []
      else if char_lower = c_yu then
        (if loanword then Inr [[a_ve]] else Inr [[a_yeh, a_ve]])
      else if char_lower \<in> set [c_tse, c_shcha, c_io] then
        (case map_of COMBINATIONS char_lower of
           None \<Rightarrow> Inl KeyError
         | Some units \<Rightarrow> Inr [units])
      else if char_lower = c_ya then
        (if i > 0 \<and> lower_cp (word ! (i - 1)) = c_i then Inr [[a_alef]]
         else Inr [[a_yeh, a_alef]])
      else if char_lower = c_i then Inr [[a_alef_maksura, a_yeh]]
      else (case map_of CONSONANTS char of
              Some units \<Rightarrow> Inr [units]
            | None \<Rightarrow>
                (case map_of VOWELS char of
                   Some units \<Rightarrow> Inr [units]
                 | None \<Rightarrow> Inr [[char]])))"

function scan :: "ustr \<Rightarrow> bool \<Rightarrow> nat \<Rightarrow> ustr list \<Rightarrow> error + ustr list" where
  "scan word loanword i result =
     (if i < length word then
        (case scan_step word loanword i of
           Inl e \<Rightarrow> Inl e
         | Inr items \<Rightarrow> scan word loanword (i + 1) (result @ items))
      else Inr result)"
  by pat_completeness auto
termination
  by (relation "measure (\<lambda>(word, loanword, i, result). length word - i)") auto

text \<open>
  The rule pipeline of \<^verbatim>\<open>convert_word\<close>, after the dictionaries: the scan from index 0
  with an empty \<^verbatim>\<open>result\<close>, the pieces joined, and the marker rule on the outcome. The
  source also computes \<^verbatim>\<open>is_front\<close> here and never reads it.
\<close>

definition transcribe :: "ustr \<Rightarrow> error + ustr" where
  "transcribe word =
     (case scan word (is_loanword word) 0 [] of
        Inl e \<Rightarrow> Inl e
      | Inr result \<Rightarrow> Inr (concat result))"

definition convert_by_rules :: "ustr \<Rightarrow> error + ustr" where
  "convert_by_rules word =
     (case transcribe word of
        Inl e \<Rightarrow> Inl e
      | Inr arabic_result \<Rightarrow> Inr (apply_hamza_rule arabic_result word))"

definition convert_word :: "ustr \<Rightarrow> error + ustr" where
  "convert_word word =
     (if word = [] then Inr word
      else
        (let word_lower = str_lower word in
         case map_of PROPER_NOUNS word_lower of
           Some v \<Rightarrow> Inr v
         | None \<Rightarrow>
             (case map_of COMMON_WORDS word_lower of
                Some v \<Rightarrow> Inr v
              | None \<Rightarrow> convert_by_rules word)))"

section \<open>Compound words and the segmenter\<close>

definition convert_compound_word :: "ustr \<Rightarrow> error + ustr" where
  "convert_compound_word word =
     (if word = [] then Inr word
      else
        (let word_lower = str_lower word in
         case map_of PROPER_NOUNS word_lower of
           Some v \<Rightarrow> Inr v
         | None \<Rightarrow>
             (case map_of COMMON_WORDS word_lower of
                Some v \<Rightarrow> Inr v
              | None \<Rightarrow>
                  if p_hyphen \<in> set word then
                    (case sequence (map convert_word (str_split word p_hyphen)) of
                       Inl e \<Rightarrow> Inl e
                     | Inr converted_parts \<Rightarrow> Inr (str_join [p_hyphen] converted_parts))
                  else convert_word word)))"

text \<open>
  The pattern of \<^verbatim>\<open>convert\<close> is \<^verbatim>\<open>L+(?:-L+)*\<close> with \<open>L\<close> the character class
  \<^const>\<open>pattern_letter\<close>. Both repetitions are greedy and neither ever has to give a
  character back, so a match that starts at a letter takes all the letters that follow
  and then, as often as it can, a hyphen with the letters after it, provided there is at
  least one. \<open>match_tail\<close> is the second repetition: what it takes and what it leaves.
\<close>

function match_tail :: "ustr \<Rightarrow> ustr \<times> ustr" where
  "match_tail [] = ([], [])"
| "match_tail [c] = ([], [c])"
| "match_tail (c # d # r) =
     (if c = p_hyphen \<and> pattern_letter d then
        (case match_tail (dropWhile pattern_letter (d # r)) of
           (m, rest) \<Rightarrow> (c # takeWhile pattern_letter (d # r) @ m, rest))
      else ([], c # d # r))"
  by pat_completeness auto
termination
  by (relation "measure length") (auto simp: less_Suc_eq_le intro: le_SucI length_dropWhile_le)

definition match_at :: "ustr \<Rightarrow> (ustr \<times> ustr) option" where
  "match_at s =
     (case s of
        [] \<Rightarrow> None
      | c # r \<Rightarrow>
          if pattern_letter c then
            (case match_tail (dropWhile pattern_letter s) of
               (m, rest) \<Rightarrow> Some (takeWhile pattern_letter s @ m, rest))
          else None)"

lemma match_tail_length: "length (snd (match_tail s)) \<le> length s"
proof (induction s rule: match_tail.induct)
  case (3 c d r)
  show ?case
  proof (cases "c = p_hyphen \<and> pattern_letter d")
    case True
    have "length (dropWhile pattern_letter (d # r)) \<le> length (d # r)"
      by (rule length_dropWhile_le)
    with 3 True show ?thesis
      by (auto simp: split_beta simp del: dropWhile.simps)
  next
    case False
    then show ?thesis by auto
  qed
qed simp_all

lemma match_at_length:
  assumes "match_at s = Some (m, rest)"
  shows "length rest < length s"
proof (cases s)
  case Nil
  with assms show ?thesis by (simp add: match_at_def)
next
  case (Cons c r)
  with assms have c: "pattern_letter c" and rest: "rest = snd (match_tail (dropWhile pattern_letter r))"
    by (auto simp: match_at_def split: if_splits prod.splits)
  have "length rest \<le> length (dropWhile pattern_letter r)"
    unfolding rest by (rule match_tail_length)
  also have "\<dots> \<le> length r" by (rule length_dropWhile_le)
  finally show ?thesis using Cons by simp
qed

text \<open>
  \<^verbatim>\<open>re.sub(pattern, repl, text)\<close> with a function \<open>repl\<close>: the text is read from the
  left; where the pattern matches, the match is handed to \<open>repl\<close> and its value takes the
  place of the match; a character at which no match starts is copied. An error of
  \<open>repl\<close> ends the substitution.
\<close>

function re_sub :: "(ustr \<Rightarrow> error + ustr) \<Rightarrow> ustr \<Rightarrow> error + ustr" where
  "re_sub repl [] = Inr []"
| "re_sub repl (c # r) =
     (case match_at (c # r) of
        Some (m, rest) \<Rightarrow>
          (case repl m of
             Inl e \<Rightarrow> Inl e
           | Inr v \<Rightarrow> (case re_sub repl rest of Inl e \<Rightarrow> Inl e | Inr out \<Rightarrow> Inr (v @ out)))
      | None \<Rightarrow> (case re_sub repl r of Inl e \<Rightarrow> Inl e | Inr out \<Rightarrow> Inr (c # out)))"
  by pat_completeness auto
termination
  by (relation "measure (\<lambda>(repl, text). length text)") (auto dest: match_at_length)

text \<open>The loop over \<^verbatim>\<open>PUNCTUATION.items()\<close>, one replacement after the other.\<close>

definition apply_punctuation :: "ustr \<Rightarrow> ustr" where
  "apply_punctuation text = foldl (\<lambda>text (cyr, arab). str_replace text cyr arab) text PUNCTUATION"

definition convert :: "ustr \<Rightarrow> error + ustr" where
  "convert text = re_sub convert_compound_word (apply_punctuation text)"


section \<open>Words and runs\<close>

text \<open>
  The strings the classifier, the transcriber and the marker rule are called on are runs
  found by the pattern and their parts: letters of the pattern's class and hyphens. A run
  is what the pattern matches as a whole: one or more non-empty strings of letters with a
  single hyphen between neighbours.
\<close>

definition word_chars :: "ustr \<Rightarrow> bool" where
  "word_chars w = list_all (\<lambda>c. pattern_letter c \<or> c = p_hyphen) w"

definition is_run :: "ustr \<Rightarrow> bool" where
  "is_run w = list_all (\<lambda>p. p \<noteq> [] \<and> list_all pattern_letter p) (str_split w p_hyphen)"

text \<open>
  What round \<open>i\<close> of the scan adds to the transcription: the strings it appends, joined.
\<close>

definition emitted :: "ustr \<Rightarrow> bool \<Rightarrow> nat \<Rightarrow> ustr" where
  "emitted word loanword i = (case scan_step word loanword i of Inl e \<Rightarrow> [] | Inr items \<Rightarrow> concat items)"

text \<open>What the punctuation table does to one character.\<close>

definition punct_cp :: "cp \<Rightarrow> cp" where
  "punct_cp c = (case map_of PUNCTUATION [c] of Some [v] \<Rightarrow> v | _ \<Rightarrow> c)"

section \<open>Replacement and punctuation\<close>

declare str_replace.simps [simp del] scan.simps [simp del]

lemma str_replace_Nil: "old \<noteq> [] \<Longrightarrow> str_replace [] old new = []"
  by (subst str_replace.simps) simp

lemma str_replace_single_Cons:
  "str_replace (c # s) [k] new = (if c = k then new else [c]) @ str_replace s [k] new"
  by (subst str_replace.simps) simp

lemma str_replace_single:
  "str_replace s [k] new = concat (map (\<lambda>c. if c = k then new else [c]) s)"
  by (induction s) (simp_all add: str_replace_Nil str_replace_single_Cons)

lemma str_replace_strip: "str_replace s [k] [] = filter (\<lambda>c. c \<noteq> k) s"
  by (induction s) (simp_all add: str_replace_Nil str_replace_single_Cons)

lemma str_replace_char: "str_replace s [k] [v] = map (\<lambda>c. if c = k then v else c) s"
  by (induction s) (simp_all add: str_replace_Nil str_replace_single_Cons)

lemma punct_cp_simps: "punct_cp c = (if c = p_comma then a_comma else if c = p_semicolon then a_semicolon else if c = p_question then a_question else c)"
  by (simp add: punct_cp_def PUNCTUATION_def)

lemma apply_punctuation_map: "apply_punctuation text = map punct_cp text"
  by (simp add: apply_punctuation_def PUNCTUATION_def str_replace_char punct_cp_simps)

section \<open>No round of the scan raises\<close>

lemma scan_step_ok: "\<exists>items. scan_step word loanword i = Inr items"
  by (simp add: scan_step_def Let_def COMBINATIONS_def split: option.splits)

lemma scan_ok: "\<exists>r. scan word loanword i result = Inr r"
proof (induction word loanword i result rule: scan.induct)
  case (1 word loanword i result)
  show ?case
  proof (cases "i < length word")
    case True
    obtain items where s: "scan_step word loanword i = Inr items"
      using scan_step_ok by blast
    from 1 [OF True s] show ?thesis
      by (subst scan.simps) (simp add: True s)
  next
    case False
    then show ?thesis by (subst scan.simps) simp
  qed
qed

lemma transcribe_ok: "\<exists>r. transcribe word = Inr r"
proof -
  obtain r where "scan word (is_loanword word) 0 [] = Inr r" using scan_ok by blast
  then show ?thesis by (simp add: transcribe_def)
qed

lemma convert_by_rules_ok: "\<exists>r. convert_by_rules word = Inr r"
proof -
  obtain r where "transcribe word = Inr r" using transcribe_ok by blast
  then show ?thesis by (simp add: convert_by_rules_def)
qed

lemma convert_word_ok: "\<exists>r. convert_word word = Inr r"
  using convert_by_rules_ok [of word]
  by (auto simp: convert_word_def Let_def split: option.splits)

lemma sequence_ok: "(\<And>x. x \<in> set rs \<Longrightarrow> \<exists>v. x = Inr v) \<Longrightarrow> \<exists>vs. sequence rs = Inr vs"
proof (induction rs)
  case Nil
  then show ?case by simp
next
  case (Cons x rs)
  then obtain v where "x = Inr v" by auto
  moreover from Cons obtain vs where "sequence rs = Inr vs" by auto
  ultimately show ?case by simp
qed

lemma convert_compound_word_ok: "\<exists>r. convert_compound_word word = Inr r"
proof -
  have "\<exists>vs. sequence (map convert_word (str_split word p_hyphen)) = Inr vs"
    by (rule sequence_ok) (auto simp: convert_word_ok)
  then show ?thesis
    using convert_word_ok [of word]
    by (auto simp: convert_compound_word_def Let_def split: option.splits)
qed

lemma re_sub_ok: "(\<And>m. \<exists>r. repl m = Inr r) \<Longrightarrow> \<exists>r. re_sub repl s = Inr r"
proof (induction repl s rule: re_sub.induct)
  case (1 repl)
  then show ?case by simp
next
  case (2 repl c r)
  show ?case
  proof (cases "match_at (c # r)")
    case None
    from "2.IH"(1) [OF None] "2.prems" obtain out where "re_sub repl r = Inr out" by blast
    with None show ?thesis by simp
  next
    case (Some a)
    obtain m rest where a: "a = (m, rest)" by (cases a)
    obtain v where v: "repl m = Inr v" using "2.prems" by blast
    from "2.IH"(2) [OF Some a [symmetric] v] "2.prems" obtain out where "re_sub repl rest = Inr out"
      by blast
    with Some a v show ?thesis by simp
  qed
qed

section \<open>Splitting, joining and the pattern on a run\<close>

lemma hyphen_not_letter: "\<not> pattern_letter p_hyphen"
  by (simp add: pattern_letter_def)

lemma str_split_not_Nil: "str_split s sep \<noteq> []"
  by (induction s) (auto split: list.splits)

lemma str_split_no_sep: "sep \<notin> set s \<Longrightarrow> str_split s sep = [s]"
  by (induction s) auto

lemma str_join_Cons: "str_join sep (p # ps) = p @ concat (map (\<lambda>q. sep @ q) ps)"
  by (induction ps arbitrary: p) simp_all

lemma str_join_split: "str_join [sep] (str_split s sep) = s"
proof (induction s)
  case Nil
  then show ?case by simp
next
  case (Cons c s)
  obtain p ps where sp: "str_split s sep = p # ps"
    using str_split_not_Nil [of s sep] by (cases "str_split s sep") auto
  with Cons show ?case by (auto simp: str_join_Cons)
qed

lemma str_split_parts: "p \<in> set (str_split s sep) \<Longrightarrow> set p \<subseteq> set s - {sep}"
proof (induction s arbitrary: p)
  case Nil
  then show ?case by simp
next
  case (Cons c s)
  obtain q qs where sp: "str_split s sep = q # qs"
    using str_split_not_Nil [of s sep] by (cases "str_split s sep") auto
  show ?case
  proof (cases "c = sep")
    case True
    with Cons show ?thesis by auto
  next
    case False
    with Cons.prems sp have "p = c # q \<or> p \<in> set qs" by auto
    then show ?thesis
    proof
      assume "p = c # q"
      moreover have "set q \<subseteq> set s - {sep}" using Cons.IH [of q] sp by simp
      ultimately show ?thesis using False by auto
    next
      assume "p \<in> set qs"
      then have "set p \<subseteq> set s - {sep}" using Cons.IH [of p] sp by simp
      then show ?thesis by auto
    qed
  qed
qed

lemma match_tail_parts:
  assumes "list_all (\<lambda>p. p \<noteq> [] \<and> list_all pattern_letter p) ps"
  shows "match_tail (concat (map (\<lambda>q. [p_hyphen] @ q) ps)) = (concat (map (\<lambda>q. [p_hyphen] @ q) ps), [])"
  using assms
proof (induction ps)
  case Nil
  then show ?case by simp
next
  case (Cons p ps)
  let ?T = "concat (map (\<lambda>q. [p_hyphen] @ q) ps)"
  from Cons.prems obtain d p' where p: "p = d # p'" and d: "pattern_letter d"
    and p': "\<forall>x\<in>set p'. pattern_letter x"
    by (cases p) (auto simp: list_all_iff)
  have T: "dropWhile pattern_letter ?T = ?T" "takeWhile pattern_letter ?T = []"
    by (cases ps; simp add: hyphen_not_letter)+
  have dw: "dropWhile pattern_letter (d # p' @ ?T) = ?T"
    using d p' T by (simp add: dropWhile_append2)
  have tw: "takeWhile pattern_letter (d # p' @ ?T) = d # p'"
    using d p' T by (simp add: takeWhile_append2)
  have ih: "match_tail ?T = (?T, [])" using Cons by simp
  have "match_tail (p_hyphen # d # p' @ ?T) = (p_hyphen # (d # p') @ ?T, [])"
    by (simp only: match_tail.simps dw tw ih d simp_thms if_True prod.case)
  then show ?case by (simp add: p)
qed

lemma match_at_run:
  assumes "is_run w"
  shows "match_at w = Some (w, [])"
proof -
  obtain p ps where sp: "str_split w p_hyphen = p # ps"
    using str_split_not_Nil [of w p_hyphen] by (cases "str_split w p_hyphen") auto
  let ?T = "concat (map (\<lambda>q. [p_hyphen] @ q) ps)"
  have w: "w = p @ ?T"
    using str_join_split [of p_hyphen w] by (simp add: sp str_join_Cons)
  from assms sp obtain d p' where p: "p = d # p'" and d: "pattern_letter d"
    and p': "\<forall>x\<in>set p'. pattern_letter x"
    and ps: "list_all (\<lambda>p. p \<noteq> [] \<and> list_all pattern_letter p) ps"
    by (cases p) (auto simp: is_run_def list_all_iff)
  have T: "dropWhile pattern_letter ?T = ?T" "takeWhile pattern_letter ?T = []"
    by (cases ps; simp add: hyphen_not_letter)+
  have dw: "dropWhile pattern_letter (d # p' @ ?T) = ?T"
    using d p' T by (simp add: dropWhile_append2)
  have tw: "takeWhile pattern_letter (d # p' @ ?T) = d # p'"
    using d p' T by (simp add: takeWhile_append2)
  have "match_at (d # p' @ ?T) = Some ((d # p') @ ?T, [])"
    unfolding match_at_def by (simp only: list.case d if_True dw tw match_tail_parts [OF ps] prod.case)
  then show ?thesis by (simp add: w p)
qed

lemma is_run_not_Nil: "is_run w \<Longrightarrow> w \<noteq> []"
  by (auto simp: is_run_def)

lemma is_run_chars:
  assumes "is_run w" and "c \<in> set w"
  shows "pattern_letter c \<or> c = p_hyphen"
proof (cases "c = p_hyphen")
  case False
  obtain p ps where sp: "str_split w p_hyphen = p # ps"
    using str_split_not_Nil [of w p_hyphen] by (cases "str_split w p_hyphen") auto
  have "w = p @ concat (map (\<lambda>q. [p_hyphen] @ q) ps)"
    using str_join_split [of p_hyphen w] by (simp add: sp str_join_Cons)
  with assms(2) False have "\<exists>q\<in>set (p # ps). c \<in> set q" by (auto split: if_splits)
  with assms(1) sp have "pattern_letter c" by (auto simp: is_run_def list_all_iff)
  then show ?thesis ..
qed simp

lemma punct_cp_letter: "pattern_letter c \<or> c = p_hyphen \<Longrightarrow> punct_cp c = c"
  by (auto simp: punct_cp_simps pattern_letter_def)

lemma apply_punctuation_run: "is_run w \<Longrightarrow> apply_punctuation w = w"
  by (simp add: apply_punctuation_map map_idI punct_cp_letter is_run_chars)

lemma re_sub_run:
  assumes "is_run w"
  shows "re_sub repl w = repl w"
proof -
  obtain c r where w: "w = c # r" using is_run_not_Nil [OF assms] by (cases w) auto
  show ?thesis using match_at_run [OF assms] by (simp add: w split: sum.splits)
qed

lemma convert_run: "is_run w \<Longrightarrow> convert w = convert_compound_word w"
  by (simp add: convert_def apply_punctuation_run re_sub_run)

lemma re_sub_no_letter: "\<forall>c\<in>set s. \<not> pattern_letter c \<Longrightarrow> re_sub repl s = Inr s"
  by (induction s) (simp_all add: match_at_def)

lemma punct_cp_not_letter: "\<not> pattern_letter c \<Longrightarrow> \<not> pattern_letter (punct_cp c)"
  by (auto simp: punct_cp_simps pattern_letter_def)

section \<open>Runs are what the pattern matches whole\<close>

text \<open>
  Whatever the pattern matches at the start of a text is a run, and a string is a run
  exactly when the pattern matches all of it.
\<close>

lemma str_split_append:
  "sep \<notin> set p \<Longrightarrow> str_split (p @ sep # r) sep = p # str_split r sep"
proof (induction p)
  case Nil
  then show ?case by simp
next
  case (Cons c p)
  then show ?case by simp
qed

lemma str_split_join:
  assumes "\<forall>q\<in>set (p # ps). sep \<notin> set q"
  shows "str_split (p @ concat (map (\<lambda>q. [sep] @ q) ps)) sep = p # ps"
  using assms
proof (induction ps arbitrary: p)
  case Nil
  then show ?case by (simp add: str_split_no_sep)
next
  case (Cons q ps)
  have "str_split (p @ sep # (q @ concat (map (\<lambda>q. [sep] @ q) ps))) sep
          = p # str_split (q @ concat (map (\<lambda>q. [sep] @ q) ps)) sep"
    using Cons.prems by (intro str_split_append) simp
  also have "str_split (q @ concat (map (\<lambda>q. [sep] @ q) ps)) sep = q # ps"
    using Cons.prems by (intro Cons.IH) simp
  finally show ?case by simp
qed

lemma match_tail_sound:
  "match_tail s = (m, rest) \<Longrightarrow>
     s = m @ rest \<and> (\<exists>ps. list_all (\<lambda>p. p \<noteq> [] \<and> list_all pattern_letter p) ps
                        \<and> m = concat (map (\<lambda>q. [p_hyphen] @ q) ps))"
proof (induction s arbitrary: m rest rule: match_tail.induct)
  case 1
  then show ?case by (auto intro: exI [of _ "[]"])
next
  case (2 c)
  then show ?case by (auto intro: exI [of _ "[]"])
next
  case (3 c d r)
  show ?case
  proof (cases "c = p_hyphen \<and> pattern_letter d")
    case False
    with "3.prems" show ?thesis by (auto intro: exI [of _ "[]"])
  next
    case True
    obtain m' rest' where mt: "match_tail (dropWhile pattern_letter (d # r)) = (m', rest')"
      by (cases "match_tail (dropWhile pattern_letter (d # r))")
    from "3.IH" [OF True mt] obtain ps where
      dw: "dropWhile pattern_letter (d # r) = m' @ rest'"
      and ps: "list_all (\<lambda>p. p \<noteq> [] \<and> list_all pattern_letter p) ps"
      and m': "m' = concat (map (\<lambda>q. [p_hyphen] @ q) ps)"
      by blast
    let ?t = "takeWhile pattern_letter (d # r)"
    from "3.prems" True mt have m: "m = c # ?t @ m'" and rest: "rest = rest'"
      by (simp_all del: takeWhile.simps dropWhile.simps)
    have "d # r = ?t @ dropWhile pattern_letter (d # r)"
      by (simp only: takeWhile_dropWhile_id)
    then have s: "c # d # r = m @ rest" by (simp only: m rest dw append.simps append_assoc)
    have t: "?t \<noteq> [] \<and> list_all pattern_letter ?t"
      using True by (auto simp: list_all_iff dest: set_takeWhileD)
    have "list_all (\<lambda>p. p \<noteq> [] \<and> list_all pattern_letter p) (?t # ps)
          \<and> m = concat (map (\<lambda>q. [p_hyphen] @ q) (?t # ps))"
      using t ps True by (simp add: m m' del: takeWhile.simps)
    with s show ?thesis by blast
  qed
qed

lemma match_at_sound:
  assumes "match_at s = Some (m, rest)"
  shows "s = m @ rest \<and> is_run m"
proof -
  from assms obtain c r where s: "s = c # r" and c: "pattern_letter c"
    by (cases s) (auto simp: match_at_def split: if_splits)
  let ?t = "takeWhile pattern_letter s"
  obtain m' rest' where mt: "match_tail (dropWhile pattern_letter s) = (m', rest')"
    by (cases "match_tail (dropWhile pattern_letter s)")
  from assms s c mt have m: "m = ?t @ m'" and rest: "rest = rest'"
    by (simp_all add: match_at_def del: takeWhile.simps dropWhile.simps)
  from match_tail_sound [OF mt] obtain ps where
    dw: "dropWhile pattern_letter s = m' @ rest'"
    and ps: "list_all (\<lambda>p. p \<noteq> [] \<and> list_all pattern_letter p) ps"
    and m': "m' = concat (map (\<lambda>q. [p_hyphen] @ q) ps)"
    by blast
  have "s = ?t @ dropWhile pattern_letter s" by (simp only: takeWhile_dropWhile_id)
  then have "s = m @ rest" by (simp only: m rest dw append_assoc)
  moreover have t: "?t \<noteq> [] \<and> list_all pattern_letter ?t"
    using s c by (auto simp: list_all_iff dest: set_takeWhileD)
  have "\<forall>q\<in>set (?t # ps). p_hyphen \<notin> set q"
    using t ps hyphen_not_letter by (auto simp: list_all_iff)
  then have "str_split m p_hyphen = ?t # ps"
    unfolding m m' by (rule str_split_join)
  then have "is_run m" using t ps by (simp add: is_run_def)
  ultimately show ?thesis by simp
qed

lemma is_run_iff_match: "is_run w \<longleftrightarrow> match_at w = Some (w, [])"
  using match_at_run [of w] match_at_sound [of w w "[]"] by auto

section \<open>Case folding of the signal consonants\<close>

lemma lower_cp_qa: "lower_cp c = c_qa \<longleftrightarrow> c = c_qa \<or> c = C_qa"
  by (auto simp: lower_cp_def)

lemma lower_cp_ghayn: "lower_cp c = c_ghayn \<longleftrightarrow> c = c_ghayn \<or> c = C_ghayn"
  by (auto simp: lower_cp_def)

lemma lower_cp_ka: "lower_cp c = c_ka \<longleftrightarrow> c = c_ka \<or> c = C_ka"
  by (auto simp: lower_cp_def)

lemma lower_cp_ghe: "lower_cp c = c_ghe \<longleftrightarrow> c = c_ghe \<or> c = C_ghe"
  by (auto simp: lower_cp_def)

lemma has_back_signal:
  "list_ex (\<lambda>c. c \<in> set [c_qa, c_ghayn]) (str_lower w)
     \<longleftrightarrow> (\<exists>c\<in>set w. c \<in> {c_qa, C_qa, c_ghayn, C_ghayn})"
  by (auto simp: list_ex_iff str_lower_def lower_cp_qa lower_cp_ghayn)

lemma has_front_signal:
  "list_ex (\<lambda>c. c \<in> set [c_ka, c_ghe]) (str_lower w)
     \<longleftrightarrow> (\<exists>c\<in>set w. c \<in> {c_ka, C_ka, c_ghe, C_ghe})"
  by (auto simp: list_ex_iff str_lower_def lower_cp_ka lower_cp_ghe)

section \<open>The marker rule and the scan, in closed form\<close>

text \<open>
  Which branch of \<^verbatim>\<open>apply_hamza_rule\<close> is taken depends on the source word only, and
  every branch either removes all markers or makes sure of a leading one.
\<close>

lemma apply_hamza_rule_forms:
  "\<exists>strip. \<forall>r. apply_hamza_rule r w =
     (if strip then filter (\<lambda>c. c \<noteq> HAMZA) r else if startswith r [HAMZA] then r else HAMZA # r)"
proof -
  let ?high = "str_lower w \<noteq> [] \<and> hd (str_lower w) \<in> set [c_oe, c_ue, c_ii]"
  let ?e = "c_ie \<in> set (str_lower w) \<or> C_ie \<in> set w"
  let ?strip = "is_loanword w \<or> (\<not> is_i_initial_native w \<and>
      (list_ex (\<lambda>char. char \<in> set [c_ka, C_ka, c_ghe, C_ghe]) w
       \<or> (\<not> ?high \<and> (?e \<or> get_initial_harmony w = Back))))"
  have "\<forall>r. apply_hamza_rule r w =
     (if ?strip then filter (\<lambda>c. c \<noteq> HAMZA) r else if startswith r [HAMZA] then r else HAMZA # r)"
    by (cases "get_initial_harmony w") (auto simp: apply_hamza_rule_def Let_def str_replace_strip)
  then show ?thesis by blast
qed

lemma scan_items:
  assumes "\<And>j. j < length word \<Longrightarrow> scan_step word l j = Inr (f j)"
  shows "scan word l i result = Inr (result @ concat (map f [i..<length word]))"
  using assms
proof (induction word l i result rule: scan.induct)
  case (1 word loanword i result)
  show ?case
  proof (cases "i < length word")
    case True
    have s: "scan_step word loanword i = Inr (f i)" using "1.prems" True by simp
    have "scan word loanword (i + 1) (result @ f i)
            = Inr ((result @ f i) @ concat (map f [i + 1..<length word]))"
      using "1.IH" [OF True s] "1.prems" by simp
    then show ?thesis
      by (subst scan.simps) (simp add: True s upt_conv_Cons)
  next
    case False
    then show ?thesis by (subst scan.simps) simp
  qed
qed

lemma scan_step_emitted: "\<exists>items. scan_step word l i = Inr items \<and> emitted word l i = concat items"
  using scan_step_ok [of word l i] by (auto simp: emitted_def)

lemma transcribe_emitted:
  "transcribe word = Inr (concat (map (emitted word (is_loanword word)) [0..<length word]))"
proof -
  let ?l = "is_loanword word"
  define f where "f j = (case scan_step word ?l j of Inl e \<Rightarrow> [] | Inr items \<Rightarrow> items)" for j
  have "scan_step word ?l j = Inr (f j)" for j
    using scan_step_ok [of word ?l j] by (auto simp: f_def)
  then have "scan word ?l 0 [] = Inr ([] @ concat (map f [0..<length word]))"
    by (intro scan_items) simp
  moreover have "emitted word ?l = (\<lambda>j. concat (f j))"
    by (rule ext) (simp add: emitted_def f_def split: sum.splits)
  moreover have "concat (concat (map f js)) = concat (map (\<lambda>j. concat (f j)) js)" for js
    by (induction js) simp_all
  ultimately show ?thesis
    by (simp add: transcribe_def)
qed

section \<open>Unfolding a conversion at a given word\<close>

text \<open>The defining equations that evaluate the converter at a concrete word.\<close>

lemmas table_defs = PROPER_NOUNS_def COMMON_WORDS_def I_INITIAL_NATIVE_WORDS_def
  LOANWORD_CONSONANTS_def LOANWORD_SUFFIXES_def SOFT_PREFIXES_WITH_HARD_ROOT_def
  CONSONANTS_def VOWELS_def COMBINATIONS_def FRONT_VOWELS_def BACK_VOWELS_def

lemmas classify_defs = str_lower_def lower_cp_def is_loanword_def is_i_initial_native_def
  get_initial_harmony_def has_loanword_consonant_def has_loanword_suffix_def endswith_def
  startswith_def has_hiatus_def hiatus_class_def str_replace.simps isalpha_def vowels_def
  pattern_letter_def

lemmas convert_defs = convert_run is_run_def convert_compound_word_def convert_word_def
  convert_by_rules_def transcribe_def scan.simps scan_step_def apply_hamza_rule_def

section \<open>Case folding and the loanword test\<close>

lemma lower_cp_idem: "lower_cp (lower_cp c) = lower_cp c"
  by (auto simp: lower_cp_def)

lemma str_lower_idem: "str_lower (str_lower w) = str_lower w"
  by (simp add: str_lower_def lower_cp_idem)

lemma lower_cp_loanword_consonant:
  "lower_cp c \<in> LOANWORD_CONSONANTS \<longleftrightarrow> c \<in> LOANWORD_CONSONANTS"
  by (auto simp: lower_cp_def LOANWORD_CONSONANTS_def)

lemma lower_cp_hyphen: "lower_cp c = p_hyphen \<longleftrightarrow> c = p_hyphen"
  by (auto simp: lower_cp_def)

lemma str_lower_hyphen: "p_hyphen \<in> set (str_lower w) \<longleftrightarrow> p_hyphen \<in> set w"
  by (auto simp: str_lower_def lower_cp_hyphen image_iff)

lemma is_loanword_lower: "is_loanword (str_lower w) = is_loanword w"
proof -
  have "has_loanword_consonant (str_lower w) = has_loanword_consonant w"
    by (simp add: has_loanword_consonant_def str_lower_def list_ex_iff lower_cp_loanword_consonant)
  then show ?thesis by (simp add: is_loanword_def str_lower_idem)
qed

section \<open>The marker in the dictionaries\<close>

text \<open>
  No value of \<^verbatim>\<open>PROPER_NOUNS\<close> holds the marker; the values of \<^verbatim>\<open>COMMON_WORDS\<close>
  that hold it belong to thirteen keys, none of which has a hyphen or passes the loanword
  test.
\<close>

lemma proper_nouns_no_hamza: "map_of PROPER_NOUNS k = Some v \<Longrightarrow> HAMZA \<notin> set v"
  by (auto simp: PROPER_NOUNS_def split: if_splits)

lemma common_words_hamza_keys:
  assumes "map_of COMMON_WORDS k = Some v" and "HAMZA \<in> set v"
  shows "k \<in> {[c_es, c_oe, c_ze], [c_be, c_ii, c_ze, c_de, c_ii, c_eng], [c_oe, c_te, c_ie],
     [c_be, c_ii, c_el, c_ii, c_em], [c_be, c_ii, c_er], [c_schwa, c_er], [c_ii, c_es],
     [c_oe, c_ze], [c_ue, c_sha, c_ii, c_en], [c_te, c_ii, c_el], [c_oe, c_em, c_ii, c_er],
     [c_schwa, c_en, c_sha, c_ii], [c_oe, c_en, c_ie, c_er, c_pe, c_a, c_ze]}"
  using assms by (auto simp: COMMON_WORDS_def split: if_splits)


lemma hamza_keys_list:
  "list_all (\<lambda>k. \<not> is_loanword k) [[c_es, c_oe, c_ze], [c_be, c_ii, c_ze, c_de, c_ii, c_eng], [c_oe, c_te, c_ie],
     [c_be, c_ii, c_el, c_ii, c_em], [c_be, c_ii, c_er], [c_schwa, c_er], [c_ii, c_es],
     [c_oe, c_ze], [c_ue, c_sha, c_ii, c_en], [c_te, c_ii, c_el], [c_oe, c_em, c_ii, c_er],
     [c_schwa, c_en, c_sha, c_ii], [c_oe, c_en, c_ie, c_er, c_pe, c_a, c_ze]]"
  by (simp add: classify_defs table_defs)

lemma hamza_keys_not_loanword:
  assumes "k \<in> {[c_es, c_oe, c_ze], [c_be, c_ii, c_ze, c_de, c_ii, c_eng], [c_oe, c_te, c_ie],
     [c_be, c_ii, c_el, c_ii, c_em], [c_be, c_ii, c_er], [c_schwa, c_er], [c_ii, c_es],
     [c_oe, c_ze], [c_ue, c_sha, c_ii, c_en], [c_te, c_ii, c_el], [c_oe, c_em, c_ii, c_er],
     [c_schwa, c_en, c_sha, c_ii], [c_oe, c_en, c_ie, c_er, c_pe, c_a, c_ze]}"
  shows "\<not> is_loanword k"
  using assms hamza_keys_list by auto

lemma common_words_loanword_no_hamza:
  assumes "map_of COMMON_WORDS (str_lower w) = Some v" and "is_loanword w"
  shows "HAMZA \<notin> set v"
proof
  assume "HAMZA \<in> set v"
  from hamza_keys_not_loanword [OF common_words_hamza_keys [OF assms(1) this]]
  have "\<not> is_loanword (str_lower w)" .
  with assms(2) show False by (simp add: is_loanword_lower)
qed

lemma common_words_hyphen_no_hamza:
  assumes "map_of COMMON_WORDS (str_lower w) = Some v" and "p_hyphen \<in> set w"
  shows "HAMZA \<notin> set v"
proof
  assume "HAMZA \<in> set v"
  from common_words_hamza_keys [OF assms(1) this] have "p_hyphen \<notin> set (str_lower w)"
    by auto
  with assms(2) show False by (simp add: str_lower_hyphen)
qed

section \<open>Words converted one part at a time\<close>

lemma convert_word_loanword:
  assumes "is_loanword p"
  shows "\<exists>out. convert_word p = Inr out \<and> HAMZA \<notin> set out"
proof (cases "p = []")
  case True
  then show ?thesis by (simp add: convert_word_def)
next
  case False
  obtain t where t: "transcribe p = Inr t" using transcribe_ok by blast
  have rules: "convert_by_rules p = Inr (filter (\<lambda>c. c \<noteq> HAMZA) t)"
    using assms by (simp add: convert_by_rules_def t apply_hamza_rule_def str_replace_strip)
  show ?thesis
  proof (cases "map_of PROPER_NOUNS (str_lower p)")
    case (Some v)
    with False show ?thesis by (simp add: convert_word_def proper_nouns_no_hamza)
  next
    case None
    show ?thesis
    proof (cases "map_of COMMON_WORDS (str_lower p)")
      case (Some v)
      with None False assms show ?thesis
        by (simp add: convert_word_def common_words_loanword_no_hamza)
    next
      case None2: None
      with None False rules show ?thesis by (simp add: convert_word_def)
    qed
  qed
qed

lemma sequence_map_all:
  assumes "\<And>p. p \<in> set ps \<Longrightarrow> \<exists>out. f p = Inr out \<and> R p out"
  shows "\<exists>outs. sequence (map f ps) = Inr outs \<and> list_all2 R ps outs"
  using assms
proof (induction ps)
  case Nil
  then show ?case by simp
next
  case (Cons p ps)
  then obtain out where "f p = Inr out" "R p out" by auto
  moreover from Cons obtain outs where "sequence (map f ps) = Inr outs" "list_all2 R ps outs"
    by auto
  ultimately show ?case by simp
qed

lemma str_join_set: "set (str_join sep ps) \<subseteq> set sep \<union> \<Union> (set ` set ps)"
  by (induction sep ps rule: str_join.induct) auto

lemma apply_hamza_rule_back_signal:
  assumes "\<exists>c\<in>set w. c \<in> {c_qa, C_qa, c_ghayn, C_ghayn}"
    and "str_lower w \<notin> I_INITIAL_NATIVE_WORDS"
    and "w \<noteq> []"
    and "lower_cp (hd w) \<notin> {c_oe, c_ue, c_ii}"
  shows "apply_hamza_rule r w = filter (\<lambda>c. c \<noteq> HAMZA) r"
proof -
  from assms(1) have "list_ex (\<lambda>c. c \<in> set [c_qa, c_ghayn]) (str_lower w)"
    by (simp only: has_back_signal)
  then have harmony: "get_initial_harmony w = Back"
    by (simp add: get_initial_harmony_def)
  have hd: "hd (str_lower w) = lower_cp (hd w)"
    using assms(3) by (simp add: str_lower_def hd_map)
  show ?thesis
    using assms(2,3,4) harmony
    by (simp add: apply_hamza_rule_def Let_def is_i_initial_native_def str_replace_strip hd)
qed

lemma letters_run: "w \<noteq> [] \<Longrightarrow> list_all pattern_letter w \<Longrightarrow> is_run w"
proof -
  assume ne: "w \<noteq> []" and l: "list_all pattern_letter w"
  then have "p_hyphen \<notin> set w" using hyphen_not_letter by (auto simp: list_all_iff)
  then show ?thesis using ne l by (simp add: is_run_def str_split_no_sep)
qed

lemma convert_word_part:
  assumes "p \<noteq> []"
  shows "\<exists>out. convert_word p = Inr out \<and>
     (case map_of PROPER_NOUNS (str_lower p) of
        Some v \<Rightarrow> out = v
      | None \<Rightarrow>
          (case map_of COMMON_WORDS (str_lower p) of
             Some v \<Rightarrow> out = v
           | None \<Rightarrow> (\<exists>t. transcribe p = Inr t \<and> out = apply_hamza_rule t p)))"
proof -
  obtain t where t: "transcribe p = Inr t" using transcribe_ok by blast
  show ?thesis
  proof (cases "map_of PROPER_NOUNS (str_lower p)")
    case (Some v)
    with assms show ?thesis by (simp add: convert_word_def)
  next
    case None
    with assms show ?thesis
      by (cases "map_of COMMON_WORDS (str_lower p)")
        (simp_all add: convert_word_def convert_by_rules_def t)
  qed
qed

section \<open>Dictionary words\<close>

text \<open>
  Claim C1. For every word (a run of the pattern: letters with single internal hyphens)
  whose lower-cased form is a key of \<^verbatim>\<open>PROPER_NOUNS\<close> or of \<^verbatim>\<open>COMMON_WORDS\<close>,
  \<^verbatim>\<open>convert\<close> returns the value stored for that key, \<^verbatim>\<open>PROPER_NOUNS\<close> being looked up first.
\<close>

theorem convert_dictionary_word:
  assumes "is_run w"
    and "map_of PROPER_NOUNS (str_lower w) = Some v
         \<or> (map_of PROPER_NOUNS (str_lower w) = None \<and> map_of COMMON_WORDS (str_lower w) = Some v)"
  shows "convert w = Inr v"
  using assms is_run_not_Nil [OF assms(1)]
  by (auto simp: convert_run convert_compound_word_def)

theorem convert_dictionary_word_witness:
  "is_run [C_en, c_soft, C_yu, p_hyphen, c_short_i, C_o, c_er, c_ka]
   \<and> map_of PROPER_NOUNS (str_lower [C_en, c_soft, C_yu, p_hyphen, c_short_i, C_o, c_er, c_ka]) = None
   \<and> map_of COMMON_WORDS (str_lower [C_en, c_soft, C_yu, p_hyphen, c_short_i, C_o, c_er, c_ka])
       = Some [a_noon, a_alef_maksura, a_yeh, a_ve, p_hyphen, a_yeh, a_waw, a_reh, a_kaf]
   \<and> convert [C_en, c_soft, C_yu, p_hyphen, c_short_i, C_o, c_er, c_ka]
       = Inr [a_noon, a_alef_maksura, a_yeh, a_ve, p_hyphen, a_yeh, a_waw, a_reh, a_kaf]"
  using convert_dictionary_word [of "[C_en, c_soft, C_yu, p_hyphen, c_short_i, C_o, c_er, c_ka]"
      "[a_noon, a_alef_maksura, a_yeh, a_ve, p_hyphen, a_yeh, a_waw, a_reh, a_kaf]"]
  by (simp add: is_run_def pattern_letter_def str_lower_def lower_cp_def PROPER_NOUNS_def
      COMMON_WORDS_def)

text \<open>
  Eight keys of \<^verbatim>\<open>PROPER_NOUNS\<close> hold a space. They are not words: the pattern stops
  at a space, so no run is ever equal to one of them and their entries are never read.
  For the last of them the two words, converted one by one, give another string than
  the stored one (U+0438 becomes U+0649 U+064A, the table has U+064A alone).
\<close>

lemma convert_phrase_key:
  "map_of PROPER_NOUNS (str_lower [c_o, c_er, c_te, c_a, c_el, c_yeru, c_qa, p_space, c_ka, c_o, c_em, c_i, c_te, c_ie, c_te])
     = Some [a_waw, a_reh, a_teh, a_alef, a_lam, a_alef_maksura, a_qaf, p_space,
             a_kaf, a_waw, a_meem, a_yeh, a_teh, a_ae, a_teh]
   \<and> \<not> is_run [c_o, c_er, c_te, c_a, c_el, c_yeru, c_qa, p_space, c_ka, c_o, c_em, c_i, c_te, c_ie, c_te]
   \<and> convert [c_o, c_er, c_te, c_a, c_el, c_yeru, c_qa, p_space, c_ka, c_o, c_em, c_i, c_te, c_ie, c_te]
     = Inr [a_waw, a_reh, a_teh, a_alef, a_lam, a_alef_maksura, a_qaf, p_space,
            a_kaf, a_waw, a_meem, a_alef_maksura, a_yeh, a_teh, a_ae, a_teh]"
  by (simp add: convert_def apply_punctuation_map punct_cp_simps match_at_def
      is_run_def convert_compound_word_def convert_word_def
      convert_by_rules_def transcribe_def scan.simps scan_step_def apply_hamza_rule_def
      classify_defs table_defs)

section \<open>Loanwords and the marker\<close>

text \<open>
  Claim C2, as amended. For every run each of whose hyphen-delimited parts is a loanword
  for \<^verbatim>\<open>is_loanword\<close> (the lower-cased part is not in \<^verbatim>\<open>I_INITIAL_NATIVE_WORDS\<close> and
  the part passes one of the four tests), and so for every loanword run without a hyphen,
  the output of \<^verbatim>\<open>convert\<close> holds no marker.
\<close>

theorem convert_loanword_parts:
  assumes "is_run w" and "\<forall>p\<in>set (str_split w p_hyphen). is_loanword p"
  shows "\<exists>out. convert w = Inr out \<and> HAMZA \<notin> set out"
proof -
  have ne: "w \<noteq> []" using assms(1) by (rule is_run_not_Nil)
  show ?thesis
  proof (cases "map_of PROPER_NOUNS (str_lower w)")
    case (Some v)
    with ne assms(1) show ?thesis
      by (simp add: convert_run convert_compound_word_def proper_nouns_no_hamza)
  next
    case None
    show ?thesis
    proof (cases "p_hyphen \<in> set w")
      case False
      then have "is_loanword w" using assms(2) by (simp add: str_split_no_sep)
      then obtain out where out: "convert_word w = Inr out" "HAMZA \<notin> set out"
        using convert_word_loanword by blast
      have "convert w = convert_word w"
        using ne None False assms(1)
        by (simp add: convert_run convert_compound_word_def convert_word_def split: option.splits)
      with out show ?thesis by simp
    next
      case True
      show ?thesis
      proof (cases "map_of COMMON_WORDS (str_lower w)")
        case (Some v)
        with ne None True assms(1) show ?thesis
          by (simp add: convert_run convert_compound_word_def common_words_hyphen_no_hamza)
      next
        case None2: None
        obtain outs where outs: "sequence (map convert_word (str_split w p_hyphen)) = Inr outs"
          and all: "list_all2 (\<lambda>p out. HAMZA \<notin> set out) (str_split w p_hyphen) outs"
          using sequence_map_all [of "str_split w p_hyphen" convert_word "\<lambda>p out. HAMZA \<notin> set out"]
            assms(2) convert_word_loanword by blast
        from all have "\<forall>out\<in>set outs. HAMZA \<notin> set out"
          by (auto simp: list_all2_conv_all_nth in_set_conv_nth)
        then have "HAMZA \<notin> set (str_join [p_hyphen] outs)"
          using str_join_set [of "[p_hyphen]" outs] by auto
        moreover have "convert w = Inr (str_join [p_hyphen] outs)"
          using ne None None2 True outs assms(1)
          by (simp add: convert_run convert_compound_word_def)
        ultimately show ?thesis by simp
      qed
    qed
  qed
qed

theorem convert_loanword_parts_witness:
  "is_run [c_em, c_a, c_ef, p_hyphen, c_ve, c_oe, c_en]
   \<and> str_split [c_em, c_a, c_ef, p_hyphen, c_ve, c_oe, c_en] p_hyphen
       = [[c_em, c_a, c_ef], [c_ve, c_oe, c_en]]
   \<and> is_loanword [c_em, c_a, c_ef] \<and> is_loanword [c_ve, c_oe, c_en]
   \<and> convert [c_em, c_a, c_ef, p_hyphen, c_ve, c_oe, c_en]
       = Inr [a_meem, a_alef, a_feh, p_hyphen, a_oe, a_waw, a_noon]"
  using convert_loanword_parts [of "[c_em, c_a, c_ef, p_hyphen, c_ve, c_oe, c_en]"]
  by (simp add: convert_defs classify_defs table_defs)

text \<open>
  The claim as stated fails at two runs. The first has a loanword consonant, and
  \<^verbatim>\<open>is_loanword\<close> is true of the whole run, but the test is made on each part by itself
  and the first part, which is no loanword, gets the marker. The second passes the
  hiatus test, but is in \<^verbatim>\<open>I_INITIAL_NATIVE_WORDS\<close> and gets the marker.
\<close>

theorem loanword_run_marker_counterexample:
  "is_run [c_oe, c_en, p_hyphen, c_ef, c_ef]
   \<and> has_loanword_consonant [c_oe, c_en, p_hyphen, c_ef, c_ef]
   \<and> is_loanword [c_oe, c_en, p_hyphen, c_ef, c_ef]
   \<and> convert [c_oe, c_en, p_hyphen, c_ef, c_ef] = Inr [HAMZA, a_waw, a_noon, p_hyphen, a_feh, a_feh]
   \<and> is_run [c_i, c_yeru, c_qa]
   \<and> has_hiatus (str_lower [c_i, c_yeru, c_qa])
   \<and> convert [c_i, c_yeru, c_qa] = Inr [HAMZA, a_alef_maksura, a_yeh, a_alef_maksura, a_qaf]"
  by (simp add: convert_defs classify_defs table_defs)

section \<open>The back signal and the marker\<close>

text \<open>
  Claim C3, as amended. For every word without a hyphen that contains the strong
  back-signalling consonant (U+049B or U+0493, in either case), is in neither dictionary,
  is not in \<^verbatim>\<open>I_INITIAL_NATIVE_WORDS\<close> and does not begin with U+04E9, U+04AF or U+0456
  (in either case), the output of \<^verbatim>\<open>convert\<close> holds no marker, whatever vowels the word
  has.
\<close>

theorem convert_back_signal:
  assumes "w \<noteq> []" and "list_all pattern_letter w"
    and "\<exists>c\<in>set w. c \<in> {c_qa, C_qa, c_ghayn, C_ghayn}"
    and "map_of PROPER_NOUNS (str_lower w) = None"
    and "map_of COMMON_WORDS (str_lower w) = None"
    and "str_lower w \<notin> I_INITIAL_NATIVE_WORDS"
    and "lower_cp (hd w) \<notin> {c_oe, c_ue, c_ii}"
  shows "\<exists>out. convert w = Inr out \<and> HAMZA \<notin> set out"
proof -
  have run: "is_run w" using assms(1,2) by (rule letters_run)
  have nh: "p_hyphen \<notin> set w" using assms(2) hyphen_not_letter by (auto simp: list_all_iff)
  obtain t where t: "transcribe w = Inr t" using transcribe_ok by blast
  have "convert w = Inr (apply_hamza_rule t w)"
    using assms(1,4,5) nh
    by (simp add: convert_run [OF run] convert_compound_word_def convert_word_def
        convert_by_rules_def t)
  then show ?thesis
    by (simp add: apply_hamza_rule_back_signal [OF assms(3,6,1,7)])
qed

text \<open>The word has the front vowel U+0456, in second place.\<close>

theorem convert_back_signal_witness:
  "[c_te, c_ii, C_qa] \<noteq> [] \<and> list_all pattern_letter [c_te, c_ii, C_qa]
   \<and> C_qa \<in> set [c_te, c_ii, C_qa]
   \<and> map_of PROPER_NOUNS (str_lower [c_te, c_ii, C_qa]) = None
   \<and> map_of COMMON_WORDS (str_lower [c_te, c_ii, C_qa]) = None
   \<and> str_lower [c_te, c_ii, C_qa] \<notin> I_INITIAL_NATIVE_WORDS
   \<and> lower_cp (hd [c_te, c_ii, C_qa]) \<notin> {c_oe, c_ue, c_ii}
   \<and> convert [c_te, c_ii, C_qa] = Inr [a_teh, a_alef_maksura, a_qaf]"
  using convert_back_signal [of "[c_te, c_ii, C_qa]"]
  by (simp add: convert_defs classify_defs table_defs)

text \<open>
  The claim as stated fails at three words that contain U+049B and are in no dictionary:
  one of \<^verbatim>\<open>I_INITIAL_NATIVE_WORDS\<close>, one that begins with U+04E9, and a hyphenated one
  whose second part begins with U+04E9. The rules for these cases come before the
  harmony class is asked for.
\<close>

theorem back_signal_marker_counterexample:
  "c_qa \<in> set [c_i, c_yeru, c_qa]
   \<and> map_of PROPER_NOUNS (str_lower [c_i, c_yeru, c_qa]) = None
   \<and> map_of COMMON_WORDS (str_lower [c_i, c_yeru, c_qa]) = None
   \<and> convert [c_i, c_yeru, c_qa] = Inr [HAMZA, a_alef_maksura, a_yeh, a_alef_maksura, a_qaf]
   \<and> c_qa \<in> set [c_oe, c_qa]
   \<and> map_of PROPER_NOUNS (str_lower [c_oe, c_qa]) = None
   \<and> map_of COMMON_WORDS (str_lower [c_oe, c_qa]) = None
   \<and> convert [c_oe, c_qa] = Inr [HAMZA, a_waw, a_qaf]
   \<and> c_qa \<in> set [c_qa, c_a, p_hyphen, c_oe, c_en]
   \<and> map_of PROPER_NOUNS (str_lower [c_qa, c_a, p_hyphen, c_oe, c_en]) = None
   \<and> map_of COMMON_WORDS (str_lower [c_qa, c_a, p_hyphen, c_oe, c_en]) = None
   \<and> convert [c_qa, c_a, p_hyphen, c_oe, c_en] = Inr [a_qaf, a_alef, p_hyphen, HAMZA, a_waw, a_noon]"
  by (simp add: convert_defs classify_defs table_defs)

section \<open>Hyphenated runs\<close>

text \<open>
  Claim C4, as amended. For every run with an internal hyphen whose lower-cased form is
  in neither dictionary, the result is the hyphen-joined list of the results for the
  hyphen-delimited parts, where the result for a part is the value stored for its
  lower-cased form in \<^verbatim>\<open>PROPER_NOUNS\<close> or else in \<^verbatim>\<open>COMMON_WORDS\<close>, when there is one,
  and the marker rule applied to the transcription of the part otherwise.
\<close>

theorem convert_hyphenated_run:
  assumes "is_run w" and "p_hyphen \<in> set w"
    and "map_of PROPER_NOUNS (str_lower w) = None"
    and "map_of COMMON_WORDS (str_lower w) = None"
  shows "\<exists>outs. convert w = Inr (str_join [p_hyphen] outs) \<and>
     list_all2 (\<lambda>p out.
        case map_of PROPER_NOUNS (str_lower p) of
          Some v \<Rightarrow> out = v
        | None \<Rightarrow>
            (case map_of COMMON_WORDS (str_lower p) of
               Some v \<Rightarrow> out = v
             | None \<Rightarrow> (\<exists>t. transcribe p = Inr t \<and> out = apply_hamza_rule t p)))
       (str_split w p_hyphen) outs"
proof -
  let ?R = "\<lambda>p out.
        case map_of PROPER_NOUNS (str_lower p) of
          Some v \<Rightarrow> out = v
        | None \<Rightarrow>
            (case map_of COMMON_WORDS (str_lower p) of
               Some v \<Rightarrow> out = v
             | None \<Rightarrow> (\<exists>t. transcribe p = Inr t \<and> out = apply_hamza_rule t p))"
  have parts: "p \<noteq> []" if "p \<in> set (str_split w p_hyphen)" for p
    using assms(1) that by (auto simp: is_run_def list_all_iff)
  obtain outs where outs: "sequence (map convert_word (str_split w p_hyphen)) = Inr outs"
    and rel: "list_all2 ?R (str_split w p_hyphen) outs"
    using sequence_map_all [of "str_split w p_hyphen" convert_word ?R] convert_word_part parts
    by blast
  have "convert w = Inr (str_join [p_hyphen] outs)"
    using assms is_run_not_Nil [OF assms(1)] outs
    by (simp add: convert_run convert_compound_word_def)
  with rel show ?thesis by blast
qed

text \<open>
  The first part is a key of \<^verbatim>\<open>PROPER_NOUNS\<close>, the second a key of \<^verbatim>\<open>COMMON_WORDS\<close>,
  the third is converted by the rules.
\<close>

theorem convert_hyphenated_run_witness:
  "is_run [c_es, c_i, p_hyphen, c_em, c_ie, c_en, p_hyphen, c_oe, c_en]
   \<and> p_hyphen \<in> set [c_es, c_i, p_hyphen, c_em, c_ie, c_en, p_hyphen, c_oe, c_en]
   \<and> map_of PROPER_NOUNS (str_lower [c_es, c_i, p_hyphen, c_em, c_ie, c_en, p_hyphen, c_oe, c_en]) = None
   \<and> map_of COMMON_WORDS (str_lower [c_es, c_i, p_hyphen, c_em, c_ie, c_en, p_hyphen, c_oe, c_en]) = None
   \<and> convert [c_es, c_i, p_hyphen, c_em, c_ie, c_en, p_hyphen, c_oe, c_en]
       = Inr [a_sheen, a_yeh, p_hyphen, a_meem, a_ae, a_noon, p_hyphen, HAMZA, a_waw, a_noon]"
  using convert_hyphenated_run [of "[c_es, c_i, p_hyphen, c_em, c_ie, c_en, p_hyphen, c_oe, c_en]"]
  by (simp add: convert_defs classify_defs table_defs)

text \<open>
  The claim as stated, with no dictionary lookup for the parts, fails at a run whose
  parts are a key of \<^verbatim>\<open>PROPER_NOUNS\<close>: the rules give another string for that part
  than the one stored.
\<close>

theorem hyphenated_run_lookup_counterexample:
  "is_run [c_es, c_i, p_hyphen, c_es, c_i]
   \<and> p_hyphen \<in> set [c_es, c_i, p_hyphen, c_es, c_i]
   \<and> map_of PROPER_NOUNS (str_lower [c_es, c_i, p_hyphen, c_es, c_i]) = None
   \<and> map_of COMMON_WORDS (str_lower [c_es, c_i, p_hyphen, c_es, c_i]) = None
   \<and> str_split [c_es, c_i, p_hyphen, c_es, c_i] p_hyphen = [[c_es, c_i], [c_es, c_i]]
   \<and> transcribe [c_es, c_i] = Inr [a_seen, a_alef_maksura, a_yeh]
   \<and> apply_hamza_rule [a_seen, a_alef_maksura, a_yeh] [c_es, c_i] = [a_seen, a_alef_maksura, a_yeh]
   \<and> convert [c_es, c_i, p_hyphen, c_es, c_i] = Inr [a_sheen, a_yeh, p_hyphen, a_sheen, a_yeh]
   \<and> convert [c_es, c_i, p_hyphen, c_es, c_i]
       \<noteq> Inr (str_join [p_hyphen] [[a_seen, a_alef_maksura, a_yeh], [a_seen, a_alef_maksura, a_yeh]])"
  by (simp add: convert_defs classify_defs table_defs)

section \<open>The classifier's signal consonants\<close>

text \<open>
  Claim C5. For every word that contains the strong back-signalling consonant (U+049B or
  U+0493, in either case), \<^verbatim>\<open>get_initial_harmony\<close> returns back, whatever vowels the word
  has and also when it contains U+043A or U+0433; for every word without the back signal
  that contains U+043A or U+0433 (in either case) it returns front. The back signal is
  tested first and the front signal second, the first match deciding.
\<close>

theorem get_initial_harmony_signal:
  assumes "word_chars w"
  shows "((\<exists>c\<in>set w. c \<in> {c_qa, C_qa, c_ghayn, C_ghayn}) \<longrightarrow> get_initial_harmony w = Back)
       \<and> ((\<forall>c\<in>set w. c \<notin> {c_qa, C_qa, c_ghayn, C_ghayn})
            \<and> (\<exists>c\<in>set w. c \<in> {c_ka, C_ka, c_ghe, C_ghe})
          \<longrightarrow> get_initial_harmony w = Front)"
proof (intro conjI impI)
  assume "\<exists>c\<in>set w. c \<in> {c_qa, C_qa, c_ghayn, C_ghayn}"
  then have "list_ex (\<lambda>c. c \<in> set [c_qa, c_ghayn]) (str_lower w)"
    by (simp only: has_back_signal)
  then show "get_initial_harmony w = Back"
    by (simp add: get_initial_harmony_def)
next
  assume a: "(\<forall>c\<in>set w. c \<notin> {c_qa, C_qa, c_ghayn, C_ghayn})
             \<and> (\<exists>c\<in>set w. c \<in> {c_ka, C_ka, c_ghe, C_ghe})"
  then have "\<not> list_ex (\<lambda>c. c \<in> set [c_qa, c_ghayn]) (str_lower w)"
    by (simp only: has_back_signal) blast
  moreover from a have "list_ex (\<lambda>c. c \<in> set [c_ka, c_ghe]) (str_lower w)"
    by (simp only: has_front_signal)
  ultimately show "get_initial_harmony w = Front"
    by (simp add: get_initial_harmony_def)
qed

text \<open>
  At a word with a front vowel, the front signal and the back signal together the class
  is back; at a word with a back vowel and the front signal alone it is front.
\<close>

theorem get_initial_harmony_signal_witness:
  "word_chars [c_ii, c_ka, C_qa] \<and> get_initial_harmony [c_ii, c_ka, C_qa] = Back
   \<and> word_chars [c_a, C_ghe] \<and> get_initial_harmony [c_a, C_ghe] = Front"
  using get_initial_harmony_signal [of "[c_ii, c_ka, C_qa]"]
    get_initial_harmony_signal [of "[c_a, C_ghe]"]
  by (simp add: word_chars_def pattern_letter_def)

section \<open>The look-behind of the scan\<close>

text \<open>
  Claim C6. In the transcription of a word, every occurrence of U+044F (in either case)
  adds the bare vowel U+0627 when the character before it in the source word is U+0438
  (in either case), and the two units U+064A U+0627 otherwise; what was added to the
  output before plays no part. U+0438 itself always adds U+0649 U+064A, at every
  position and for either value of the loanword flag. The transcription is what the
  rounds add, in order.
\<close>

theorem transcribe_ya_lookbehind:
  assumes "word_chars w"
  shows "transcribe w = Inr (concat (map (emitted w (is_loanword w)) [0..<length w]))
       \<and> (\<forall>i<length w. lower_cp (w ! i) = c_ya \<longrightarrow>
            emitted w l i = (if 0 < i \<and> lower_cp (w ! (i - 1)) = c_i then [a_alef] else [a_yeh, a_alef]))
       \<and> (\<forall>i<length w. lower_cp (w ! i) = c_i \<longrightarrow> emitted w l i = [a_alef_maksura, a_yeh])"
proof (intro conjI allI impI)
  show "transcribe w = Inr (concat (map (emitted w (is_loanword w)) [0..<length w]))"
    by (rule transcribe_emitted)
next
  fix i
  assume "i < length w" and ya: "lower_cp (w ! i) = c_ya"
  show "emitted w l i = (if 0 < i \<and> lower_cp (w ! (i - 1)) = c_i then [a_alef] else [a_yeh, a_alef])"
  proof (cases "0 < i \<and> lower_cp (w ! (i - 1)) = c_i")
    case True
    with ya show ?thesis by (simp add: emitted_def scan_step_def)
  next
    case False
    with ya show ?thesis by (auto simp: emitted_def scan_step_def)
  qed
next
  fix i
  assume "i < length w" and "lower_cp (w ! i) = c_i"
  then show "emitted w l i = [a_alef_maksura, a_yeh]"
    by (simp add: emitted_def scan_step_def)
qed

text \<open>
  In the second pair the output before U+044F ends with U+064A, added for U+0439; the
  source character before is not U+0438, and both units are added.
\<close>

theorem transcribe_ya_lookbehind_witness:
  "word_chars [C_i, c_ya, c_short_i, C_ya]
   \<and> transcribe [C_i, c_ya, c_short_i, C_ya]
       = Inr [a_alef_maksura, a_yeh, a_alef, a_yeh, a_yeh, a_alef]
   \<and> emitted [C_i, c_ya, c_short_i, C_ya] False 0 = [a_alef_maksura, a_yeh]
   \<and> emitted [C_i, c_ya, c_short_i, C_ya] False 1 = [a_alef]
   \<and> emitted [C_i, c_ya, c_short_i, C_ya] False 2 = [a_yeh]
   \<and> emitted [C_i, c_ya, c_short_i, C_ya] False 3 = [a_yeh, a_alef]"
  using transcribe_ya_lookbehind [of "[C_i, c_ya, c_short_i, C_ya]" False]
  by (simp add: word_chars_def pattern_letter_def emitted_def scan_step_def lower_cp_def
      CONSONANTS_def upt_rec)

section \<open>The marker rule applied twice\<close>

text \<open>
  Claim C7. \<^verbatim>\<open>apply_hamza_rule\<close> is idempotent in its first argument, for every target
  string and every source word. Its result is the target string with every marker
  removed, or the target string itself when that begins with the marker, or the target
  string with one marker put in front when it does not: an inserting branch puts no
  marker before a leading marker, and a stripping branch removes all the markers.
\<close>

theorem apply_hamza_rule_idempotent:
  assumes "word_chars w"
  shows "apply_hamza_rule (apply_hamza_rule r w) w = apply_hamza_rule r w
       \<and> (apply_hamza_rule r w = filter (\<lambda>c. c \<noteq> HAMZA) r
          \<or> (startswith r [HAMZA] \<and> apply_hamza_rule r w = r)
          \<or> (\<not> startswith r [HAMZA] \<and> apply_hamza_rule r w = HAMZA # r))"
proof -
  obtain strip where f: "\<And>r. apply_hamza_rule r w =
     (if strip then filter (\<lambda>c. c \<noteq> HAMZA) r else if startswith r [HAMZA] then r else HAMZA # r)"
    using apply_hamza_rule_forms [of w] by blast
  show ?thesis
  proof (cases strip)
    case True
    then show ?thesis by (simp add: f)
  next
    case False
    then show ?thesis by (simp add: f startswith_def)
  qed
qed

theorem apply_hamza_rule_idempotent_witness:
  "word_chars [c_oe, c_en]
   \<and> apply_hamza_rule [a_waw, HAMZA, a_noon] [c_oe, c_en] = [HAMZA, a_waw, HAMZA, a_noon]
   \<and> apply_hamza_rule [HAMZA, a_waw, HAMZA, a_noon] [c_oe, c_en] = [HAMZA, a_waw, HAMZA, a_noon]
   \<and> word_chars [c_qa, c_a]
   \<and> apply_hamza_rule [HAMZA, a_qaf, HAMZA, a_alef] [c_qa, c_a] = [a_qaf, a_alef]
   \<and> apply_hamza_rule [a_qaf, a_alef] [c_qa, c_a] = [a_qaf, a_alef]"
  using apply_hamza_rule_idempotent [of "[c_oe, c_en]" "[a_waw, HAMZA, a_noon]"]
    apply_hamza_rule_idempotent [of "[c_qa, c_a]" "[HAMZA, a_qaf, HAMZA, a_alef]"]
  by (simp add: word_chars_def pattern_letter_def startswith_def apply_hamza_rule_def
      is_loanword_def is_i_initial_native_def get_initial_harmony_def str_lower_def lower_cp_def
      I_INITIAL_NATIVE_WORDS_def has_loanword_consonant_def LOANWORD_CONSONANTS_def
      has_loanword_suffix_def LOANWORD_SUFFIXES_def endswith_def has_hiatus_def hiatus_class_def
      str_replace.simps isalpha_def vowels_def)

section \<open>Text without letters of the source script\<close>

text \<open>
  Claim C8. For every string with no letter of the source script (no character of the
  pattern's class), \<^verbatim>\<open>convert\<close> returns the string with each symbol of \<^verbatim>\<open>PUNCTUATION\<close>
  replaced by its value and every other character unchanged, in the original order.
\<close>

theorem convert_no_letters:
  assumes "\<forall>c\<in>set s. \<not> pattern_letter c"
  shows "convert s = Inr (concat (map (\<lambda>c. case map_of PUNCTUATION [c] of Some v \<Rightarrow> v | None \<Rightarrow> [c]) s))"
proof -
  have "\<forall>c\<in>set (map punct_cp s). \<not> pattern_letter c"
    using assms by (auto simp: punct_cp_not_letter)
  then have "convert s = Inr (map punct_cp s)"
    by (simp add: convert_def apply_punctuation_map re_sub_no_letter del: set_map)
  moreover have "map punct_cp s = concat (map (\<lambda>c. case map_of PUNCTUATION [c] of Some v \<Rightarrow> v | None \<Rightarrow> [c]) s)"
    by (induction s) (simp_all add: punct_cp_simps PUNCTUATION_def)
  ultimately show ?thesis by simp
qed

text \<open>Digits, Latin letters, target-script text and punctuation, mapped or not.\<close>

theorem convert_no_letters_witness:
  "list_all (\<lambda>c. \<not> pattern_letter c)
     [0x31, p_comma, 0x41, p_semicolon, a_alef, p_hyphen, 0x28, p_question, p_full_stop]
   \<and> convert [0x31, p_comma, 0x41, p_semicolon, a_alef, p_hyphen, 0x28, p_question, p_full_stop]
       = Inr [0x31, a_comma, 0x41, a_semicolon, a_alef, p_hyphen, 0x28, a_question, p_full_stop]"
  using convert_no_letters [of "[0x31, p_comma, 0x41, p_semicolon, a_alef, p_hyphen, 0x28, p_question, p_full_stop]"]
  by (simp add: pattern_letter_def PUNCTUATION_def)

section \<open>Totality\<close>

text \<open>
  Claim C9. \<^verbatim>\<open>convert\<close> returns a string for every input string, the empty one
  included: no dictionary subscript of the converter meets a missing key, on any input.
\<close>

theorem convert_total: "\<exists>out. convert text = Inr out"
  unfolding convert_def by (rule re_sub_ok) (rule convert_compound_word_ok)

section \<open>Native words with initial U+0438\<close>

text \<open>
  Claim C10. For every word whose lower-cased form is in \<^verbatim>\<open>I_INITIAL_NATIVE_WORDS\<close>,
  \<^verbatim>\<open>is_loanword\<close> returns false, whatever the four loanword tests say, since the set is
  tested before them; the marker rule then does not strip such a word but makes sure of
  a leading marker.
\<close>

theorem i_initial_native_not_loanword:
  assumes "str_lower w \<in> I_INITIAL_NATIVE_WORDS"
  shows "\<not> is_loanword w
       \<and> apply_hamza_rule r w = (if startswith r [HAMZA] then r else HAMZA # r)"
  using assms by (simp add: is_loanword_def apply_hamza_rule_def is_i_initial_native_def)

text \<open>
  U+0438 U+044B U+049B is in the set and has two neighbouring vowels that the hiatus test
  accepts.
\<close>

theorem i_initial_native_not_loanword_witness:
  "str_lower [C_i, c_yeru, c_qa] \<in> I_INITIAL_NATIVE_WORDS
   \<and> has_hiatus (str_lower [C_i, c_yeru, c_qa])
   \<and> \<not> is_loanword [C_i, c_yeru, c_qa]
   \<and> apply_hamza_rule [a_alef_maksura, a_yeh, a_alef_maksura, a_qaf] [C_i, c_yeru, c_qa]
       = [HAMZA, a_alef_maksura, a_yeh, a_alef_maksura, a_qaf]"
  using i_initial_native_not_loanword [of "[C_i, c_yeru, c_qa]" "[a_alef_maksura, a_yeh, a_alef_maksura, a_qaf]"]
  by (simp add: str_lower_def lower_cp_def I_INITIAL_NATIVE_WORDS_def has_hiatus_def
      str_replace.simps hiatus_class_def startswith_def)

end
